theory Spec2Isabelle
  imports Complex_Main
begin

section \<open>Tensors\<close>

text \<open>
  The notebook computes with torch tensors. A one-dimensional tensor is a list of reals; a
  two-dimensional tensor carries its number of columns beside its rows, so that the shapes
  \<open>n \<times> 0\<close> and \<open>0 \<times> n\<close> stay apart (the kernel basis of a square system is \<open>n \<times> 0\<close>).
  Entries are real numbers: the model is the exact arithmetic that the floating-point run
  approximates. Operations that torch rejects at run time return an error value.
\<close>

datatype error = ShapeError | LinAlgError | NonFinite

datatype tensor2 = Tensor2 (ncols: nat) (rows: "real list list")

definition nrows :: "tensor2 \<Rightarrow> nat" where
  "nrows T = length (rows T)"

definition entry :: "tensor2 \<Rightarrow> nat \<Rightarrow> nat \<Rightarrow> real" where
  "entry T i j = rows T ! i ! j"

definition has_shape :: "tensor2 \<Rightarrow> nat \<Rightarrow> nat \<Rightarrow> bool" where
  "has_shape T r c \<longleftrightarrow> nrows T = r \<and> ncols T = c \<and> list_all (\<lambda>row. length row = c) (rows T)"

definition tabulate :: "nat \<Rightarrow> nat \<Rightarrow> (nat \<Rightarrow> nat \<Rightarrow> real) \<Rightarrow> tensor2" where
  "tabulate r c f = Tensor2 c (map (\<lambda>i. map (\<lambda>j. f i j) [0..<c]) [0..<r])"

text \<open>\<^verbatim>\<open>torch.ones(n)\<close> and \<^verbatim>\<open>torch.tensor(range(1, n+1))\<close>.\<close>

definition ones :: "nat \<Rightarrow> real list" where
  "ones n = replicate n 1"

definition arange1 :: "nat \<Rightarrow> real list" where
  "arange1 n = map real [1..<n + 1]"

text \<open>\<^verbatim>\<open>torch.stack((a, b))\<close>: both tensors must have the same size.\<close>

definition stack :: "real list \<Rightarrow> real list \<Rightarrow> error + tensor2" where
  "stack a b = (if length a = length b then Inr (Tensor2 (length a) [a, b]) else Inl ShapeError)"

text \<open>\<^verbatim>\<open>torch.transpose(T, 0, 1)\<close>.\<close>

definition transpose_t :: "tensor2 \<Rightarrow> tensor2" where
  "transpose_t T = tabulate (ncols T) (nrows T) (\<lambda>i j. entry T j i)"

text \<open>\<^verbatim>\<open>T[:, k:]\<close>: a slice past the last column is empty, it does not fail.\<close>

definition slice_cols :: "nat \<Rightarrow> tensor2 \<Rightarrow> tensor2" where
  "slice_cols k T = Tensor2 (ncols T - k) (map (drop k) (rows T))"

text \<open>\<^verbatim>\<open>torch.mm(A, B)\<close>: the inner dimensions must agree.\<close>

definition mm_raw :: "tensor2 \<Rightarrow> tensor2 \<Rightarrow> tensor2" where
  "mm_raw A B = tabulate (nrows A) (ncols B) (\<lambda>i j. \<Sum>k\<leftarrow>[0..<ncols A]. entry A i k * entry B k j)"

definition mm :: "tensor2 \<Rightarrow> tensor2 \<Rightarrow> error + tensor2" where
  "mm A B = (if ncols A = nrows B then Inr (mm_raw A B) else Inl ShapeError)"

text \<open>
  Elementwise \<open>+\<close> and \<open>-\<close> with torch's broadcasting: two sizes are compatible when they are
  equal or one of them is 1, and the operand of size 1 is repeated.
\<close>

definition broadcastable :: "nat \<Rightarrow> nat \<Rightarrow> bool" where
  "broadcastable d e \<longleftrightarrow> d = e \<or> d = 1 \<or> e = 1"

definition bdim :: "nat \<Rightarrow> nat \<Rightarrow> nat" where
  "bdim d e = (if d = 1 then e else d)"

definition bidx :: "nat \<Rightarrow> nat \<Rightarrow> nat" where
  "bidx d i = (if d = 1 then 0 else i)"

definition elementwise :: "(real \<Rightarrow> real \<Rightarrow> real) \<Rightarrow> tensor2 \<Rightarrow> tensor2 \<Rightarrow> error + tensor2" where
  "elementwise f X Y =
     (if broadcastable (nrows X) (nrows Y) \<and> broadcastable (ncols X) (ncols Y)
      then Inr (tabulate (bdim (nrows X) (nrows Y)) (bdim (ncols X) (ncols Y))
                  (\<lambda>i j. f (entry X (bidx (nrows X) i) (bidx (ncols X) j))
                           (entry Y (bidx (nrows Y) i) (bidx (ncols Y) j))))
      else Inl ShapeError)"

text \<open>The same operations on two tensors of one shape, where nothing is repeated.\<close>

definition add_raw :: "tensor2 \<Rightarrow> tensor2 \<Rightarrow> tensor2" where
  "add_raw X Y = tabulate (nrows X) (ncols X) (\<lambda>i j. entry X i j + entry Y i j)"

definition sub_raw :: "tensor2 \<Rightarrow> tensor2 \<Rightarrow> tensor2" where
  "sub_raw X Y = tabulate (nrows X) (ncols X) (\<lambda>i j. entry X i j - entry Y i j)"

definition tadd :: "tensor2 \<Rightarrow> tensor2 \<Rightarrow> error + tensor2" where
  "tadd = elementwise (+)"

definition tsub :: "tensor2 \<Rightarrow> tensor2 \<Rightarrow> error + tensor2" where
  "tsub = elementwise (-)"

text \<open>\<^verbatim>\<open>p.reshape(len(p), 1)\<close> and \<^verbatim>\<open>T.flatten()\<close> (row-major).\<close>

definition reshape_column :: "real list \<Rightarrow> tensor2" where
  "reshape_column xs = Tensor2 1 (map (\<lambda>x. [x]) xs)"

definition flatten :: "tensor2 \<Rightarrow> real list" where
  "flatten T = concat (rows T)"

text \<open>\<^verbatim>\<open>dst.copy_(src)\<close>: the source is broadcast to the size of the destination.\<close>

definition copy_into :: "real list \<Rightarrow> real list \<Rightarrow> error + real list" where
  "copy_into dst src =
     (if length src = length dst then Inr src
      else if length src = 1 then Inr (replicate (length dst) (hd src))
      else Inl ShapeError)"


section \<open>The library primitives the notebook calls\<close>

text \<open>
  \<^verbatim>\<open>torch.linalg.svd\<close> and \<^verbatim>\<open>torch.linalg.lstsq\<close> are not part of the notebook. They
  are parameters of the model, and the theorems assume what their documentation promises.
  A call may also fail, which is the error branch.
\<close>

type_synonym svd_fn = "tensor2 \<Rightarrow> error + (tensor2 \<times> real list \<times> tensor2)"

type_synonym lstsq_fn = "tensor2 \<Rightarrow> tensor2 \<Rightarrow> error + tensor2"

definition eye :: "nat \<Rightarrow> tensor2" where
  "eye n = tabulate n n (\<lambda>i j. if i = j then 1 else 0)"

definition zeros :: "nat \<Rightarrow> nat \<Rightarrow> tensor2" where
  "zeros r c = tabulate r c (\<lambda>i j. 0)"

text \<open>The \<open>m \<times> n\<close> matrix with the singular values on its diagonal (\<^verbatim>\<open>S_matrix\<close> in cell 4).\<close>

definition diag_embed :: "nat \<Rightarrow> nat \<Rightarrow> real list \<Rightarrow> tensor2" where
  "diag_embed m n S = tabulate m n (\<lambda>i j. if i = j then S ! i else 0)"

definition orthogonal :: "tensor2 \<Rightarrow> bool" where
  "orthogonal Q \<longleftrightarrow>
     mm_raw Q (transpose_t Q) = eye (nrows Q) \<and> mm_raw (transpose_t Q) Q = eye (nrows Q)"

text \<open>
  The full singular value decomposition of an \<open>m \<times> n\<close> matrix: \<open>U\<close> is \<open>m \<times> m\<close>, \<open>VT\<close> is
  \<open>n \<times> n\<close>, both orthogonal, there are \<open>min m n\<close> singular values, and \<open>U \<cdot> diag S \<cdot> VT = A\<close>
  (the check of cell 4). Sign and order of the singular values are not needed below and are
  left open.
\<close>

definition is_svd :: "tensor2 \<Rightarrow> tensor2 \<Rightarrow> real list \<Rightarrow> tensor2 \<Rightarrow> bool" where
  "is_svd A U S VT \<longleftrightarrow>
     has_shape U (nrows A) (nrows A) \<and> length S = min (nrows A) (ncols A) \<and>
     has_shape VT (ncols A) (ncols A) \<and> orthogonal U \<and> orthogonal VT \<and>
     mm_raw (mm_raw U (diag_embed (nrows A) (ncols A) S)) VT = A"

definition sq_norm :: "tensor2 \<Rightarrow> real" where
  "sq_norm x = (\<Sum>i\<leftarrow>[0..<nrows x]. (entry x i 0)\<^sup>2)"

definition sq_residual :: "tensor2 \<Rightarrow> tensor2 \<Rightarrow> tensor2 \<Rightarrow> real" where
  "sq_residual A b x = (\<Sum>i\<leftarrow>[0..<nrows A]. (entry (mm_raw A x) i 0 - entry b i 0)\<^sup>2)"

text \<open>
  A solution of the least-squares problem for one right-hand side is a column that minimises
  the residual. The solution that \<^verbatim>\<open>torch.linalg.lstsq\<close> returns has, as the LAPACK drivers
  behind the call compute it, the least norm among the minimisers.
\<close>

definition is_least_squares :: "tensor2 \<Rightarrow> tensor2 \<Rightarrow> tensor2 \<Rightarrow> bool" where
  "is_least_squares A b v \<longleftrightarrow>
     has_shape v (ncols A) 1 \<and>
     (\<forall>x. has_shape x (ncols A) 1 \<longrightarrow> sq_residual A b v \<le> sq_residual A b x)"

definition is_lstsq :: "tensor2 \<Rightarrow> tensor2 \<Rightarrow> tensor2 \<Rightarrow> bool" where
  "is_lstsq A b v \<longleftrightarrow>
     is_least_squares A b v \<and>
     (\<forall>x. has_shape x (ncols A) 1 \<longrightarrow> sq_residual A b x = sq_residual A b v \<longrightarrow>
          sq_norm v \<le> sq_norm x)"

text \<open>
  A matrix with two rows has full row rank when one of its \<open>2 \<times> 2\<close> minors is not zero. A
  system is consistent when it has a solution.
\<close>

definition full_row_rank :: "tensor2 \<Rightarrow> bool" where
  "full_row_rank A \<longleftrightarrow>
     (\<exists>i\<in>{..<ncols A}. \<exists>j\<in>{..<ncols A}.
        entry A 0 i * entry A 1 j - entry A 0 j * entry A 1 i \<noteq> 0)"

definition consistent :: "tensor2 \<Rightarrow> tensor2 \<Rightarrow> bool" where
  "consistent A b \<longleftrightarrow> (\<exists>x. has_shape x (ncols A) 1 \<and> mm_raw A x = b)"

section \<open>The constraint projector\<close>

text \<open>The constraint system of \<^verbatim>\<open>_compute_constraint_projector\<close>.\<close>

definition constraint_A :: "nat \<Rightarrow> error + tensor2" where
  "constraint_A num_faces =
     (let probability_coeffs = ones num_faces;
          mean_coeffs = arange1 num_faces
      in stack probability_coeffs mean_coeffs)"

definition constraint_b :: "real \<Rightarrow> tensor2" where
  "constraint_b mean_constraint = Tensor2 1 [[1], [mean_constraint]]"

text \<open>The body of the closure, \<^verbatim>\<open>lambda x: v + torch.mm(P, x - v)\<close>.\<close>

definition project :: "tensor2 \<Rightarrow> tensor2 \<Rightarrow> tensor2 \<Rightarrow> error + tensor2" where
  "project P v x =
     (case tsub x v of Inl e \<Rightarrow> Inl e
      | Inr d \<Rightarrow> (case mm P d of Inl e \<Rightarrow> Inl e | Inr y \<Rightarrow> tadd v y))"

text \<open>
  \<^verbatim>\<open>_compute_constraint_projector\<close> up to its \<^verbatim>\<open>return\<close>: the two tensors \<open>P\<close> and \<open>v\<close>
  that the closure captures.
\<close>

definition projector_captures :: "svd_fn \<Rightarrow> lstsq_fn \<Rightarrow> nat \<Rightarrow> real \<Rightarrow> error + (tensor2 \<times> tensor2)" where
  "projector_captures svd lstsq num_faces mean_constraint =
     (case constraint_A num_faces of Inl e \<Rightarrow> Inl e
      | Inr A \<Rightarrow>
          let b = constraint_b mean_constraint in
          (case svd A of Inl e \<Rightarrow> Inl e
           | Inr (U, S, VT) \<Rightarrow>
               let V = transpose_t VT;
                   K = slice_cols (length S) V
               in (case mm K (transpose_t K) of Inl e \<Rightarrow> Inl e
                   | Inr P \<Rightarrow>
                       (case lstsq A b of Inl e \<Rightarrow> Inl e
                        | Inr v \<Rightarrow> Inr (P, v)))))"

definition compute_constraint_projector ::
    "svd_fn \<Rightarrow> lstsq_fn \<Rightarrow> nat \<Rightarrow> real \<Rightarrow> error + (tensor2 \<Rightarrow> error + tensor2)" where
  "compute_constraint_projector svd lstsq num_faces mean_constraint =
     (case projector_captures svd lstsq num_faces mean_constraint of Inl e \<Rightarrow> Inl e
      | Inr (P, v) \<Rightarrow> Inr (project P v))"

section \<open>The module and the optimization loop\<close>

text \<open>
  Reverse-mode differentiation of the graph that \<^verbatim>\<open>forward\<close> records. A node's value is a
  one-dimensional tensor; the result of \<^verbatim>\<open>torch.sum\<close> is the one-element list.
\<close>

datatype node = Param | Log node | Mul node node | Sum node | Neg node

fun node_value :: "real list \<Rightarrow> node \<Rightarrow> real list" where
  "node_value ps Param = ps"
| "node_value ps (Log a) = map ln (node_value ps a)"
| "node_value ps (Mul a b) = map2 (*) (node_value ps a) (node_value ps b)"
| "node_value ps (Sum a) = [sum_list (node_value ps a)]"
| "node_value ps (Neg a) = map uminus (node_value ps a)"

text \<open>
  In floating point the logarithm of 0 is \<open>-\<infinity>\<close> and that of a negative number is NaN; the
  real function \<^term>\<open>ln\<close> is something else there. A graph has a finite value when every
  logarithm is taken of positive numbers.
\<close>

fun finite_value :: "real list \<Rightarrow> node \<Rightarrow> bool" where
  "finite_value ps Param = True"
| "finite_value ps (Log a) = (finite_value ps a \<and> list_all (\<lambda>x. 0 < x) (node_value ps a))"
| "finite_value ps (Mul a b) = (finite_value ps a \<and> finite_value ps b)"
| "finite_value ps (Sum a) = finite_value ps a"
| "finite_value ps (Neg a) = finite_value ps a"

text \<open>\<open>backward ps a g\<close>: the gradient that reaches the parameter from node \<open>a\<close>, given the
  gradient \<open>g\<close> of the loss with respect to the value of \<open>a\<close>.\<close>

fun backward :: "real list \<Rightarrow> node \<Rightarrow> real list \<Rightarrow> real list" where
  "backward ps Param g = g"
| "backward ps (Log a) g = backward ps a (map2 (/) g (node_value ps a))"
| "backward ps (Mul a b) g =
     map2 (+) (backward ps a (map2 (*) g (node_value ps b)))
              (backward ps b (map2 (*) g (node_value ps a)))"
| "backward ps (Sum a) g = backward ps a (replicate (length (node_value ps a)) (hd g))"
| "backward ps (Neg a) g = backward ps a (map uminus g)"

record MaxEntropyDice =
  num_faces :: nat
  mean_constraint :: real
  constraint_projector :: "tensor2 \<Rightarrow> error + tensor2"
  p :: "real list"
  grad :: "real list option"

text \<open>\<^verbatim>\<open>MaxEntropyDice.__init__\<close>.\<close>

definition init :: "svd_fn \<Rightarrow> lstsq_fn \<Rightarrow> nat \<Rightarrow> real \<Rightarrow> error + MaxEntropyDice" where
  "init svd lstsq n mean =
     (case compute_constraint_projector svd lstsq n mean of Inl e \<Rightarrow> Inl e
      | Inr projector \<Rightarrow>
          let initial_p = ones n
          in Inr \<lparr>num_faces = n, mean_constraint = mean, constraint_projector = projector,
                  p = initial_p, grad = None\<rparr>)"

text \<open>\<^verbatim>\<open>forward\<close>: \<^verbatim>\<open>-torch.sum(self.p * torch.log(self.p))\<close>, and the graph it records.\<close>

definition entropy_graph :: node where
  "entropy_graph = Neg (Sum (Mul Param (Log Param)))"

definition forward :: "MaxEntropyDice \<Rightarrow> error + real" where
  "forward m =
     (if finite_value (p m) entropy_graph then Inr (hd (node_value (p m) entropy_graph))
      else Inl NonFinite)"

text \<open>\<^verbatim>\<open>enforce_constraint\<close>.\<close>

definition enforce_constraint :: "MaxEntropyDice \<Rightarrow> error + MaxEntropyDice" where
  "enforce_constraint m =
     (case constraint_projector m (reshape_column (p m)) of Inl e \<Rightarrow> Inl e
      | Inr projected_p \<Rightarrow>
          (case copy_into (p m) (flatten projected_p) of Inl e \<Rightarrow> Inl e
           | Inr q \<Rightarrow> Inr (m\<lparr>p := q\<rparr>)))"

text \<open>
  One pass of the loop of cell 12. \<^verbatim>\<open>zero_grad\<close> clears the gradient, \<^verbatim>\<open>loss.backward()\<close>
  adds the gradient of \<^verbatim>\<open>loss = -model()\<close> to it, and \<^verbatim>\<open>optimizer.step()\<close> of a plain
  \<^verbatim>\<open>SGD\<close> (no momentum, no weight decay) subtracts the learning rate times the gradient.
  Where the loss is not finite the gradient holds NaN, which the projection then spreads over
  the whole of \<open>p\<close>: the model stops with \<^term>\<open>NonFinite\<close>.
\<close>

definition zero_grad :: "MaxEntropyDice \<Rightarrow> MaxEntropyDice" where
  "zero_grad m = m\<lparr>grad := None\<rparr>"

definition loss_graph :: node where
  "loss_graph = Neg entropy_graph"

definition loss_backward :: "MaxEntropyDice \<Rightarrow> error + MaxEntropyDice" where
  "loss_backward m =
     (if finite_value (p m) loss_graph
      then let g = backward (p m) loss_graph [1]
           in Inr (m\<lparr>grad := Some (case grad m of None \<Rightarrow> g | Some g0 \<Rightarrow> map2 (+) g0 g)\<rparr>)
      else Inl NonFinite)"

definition optimizer_step :: "real \<Rightarrow> MaxEntropyDice \<Rightarrow> MaxEntropyDice" where
  "optimizer_step lr m =
     (case grad m of None \<Rightarrow> m
      | Some g \<Rightarrow> m\<lparr>p := map2 (\<lambda>x d. x - lr * d) (p m) g\<rparr>)"

definition iteration :: "real \<Rightarrow> MaxEntropyDice \<Rightarrow> error + MaxEntropyDice" where
  "iteration lr m =
     (case loss_backward (zero_grad m) of Inl e \<Rightarrow> Inl e
      | Inr m1 \<Rightarrow> enforce_constraint (optimizer_step lr m1))"

fun optimize :: "real \<Rightarrow> nat \<Rightarrow> MaxEntropyDice \<Rightarrow> error + MaxEntropyDice" where
  "optimize lr 0 m = Inr m"
| "optimize lr (Suc k) m =
     (case iteration lr m of Inl e \<Rightarrow> Inl e | Inr m' \<Rightarrow> optimize lr k m')"

text \<open>
  Cells 11 and 12: the module is constructed, then the loop runs for a number of passes
  (\<open>2000\<close> in the notebook, with learning rate \<open>1/1000\<close>).
\<close>

definition run :: "svd_fn \<Rightarrow> lstsq_fn \<Rightarrow> nat \<Rightarrow> real \<Rightarrow> real \<Rightarrow> nat \<Rightarrow> error + MaxEntropyDice" where
  "run svd lstsq n mean lr iters =
     (case init svd lstsq n mean of Inl e \<Rightarrow> Inl e
      | Inr model \<Rightarrow> optimize lr iters model)"

text \<open>The update of section 4.2 of the specification, \<open>p\<^sub>i \<leftarrow> p\<^sub>i - \<eta> (log p\<^sub>i + 1)\<close>.\<close>

definition closed_form_update :: "real \<Rightarrow> real list \<Rightarrow> real list" where
  "closed_form_update \<eta> ps = map (\<lambda>x. x - \<eta> * (ln x + 1)) ps"

section \<open>Concrete instances\<close>

text \<open>
  The values below instantiate the theorems at concrete inputs: the constraint systems for
  one, two and six faces, a singular value decomposition and the least-squares solution of
  each, and library functions that return them.
\<close>

subsection \<open>Two faces, mean \<open>3/2\<close>\<close>

text \<open>
  The constraint matrix is symmetric with eigenvalues \<open>(3 \<plusminus> \<surd>5)/2\<close>, the squares of the golden
  ratio and of its inverse. The second decomposition differs from the first in the sign of
  both orthogonal factors. The projector is the constant map onto \<open>(1/2, 1/2)\<close>.
\<close>

definition A2 :: tensor2 where
  "A2 = Tensor2 2 [[1, 1], [1, 2]]"

definition phi :: real where
  "phi = (1 + sqrt 5) / 2"

definition t2 :: real where
  "t2 = sqrt ((5 + sqrt 5) / 2)"

definition U2 :: tensor2 where
  "U2 = Tensor2 2 [[1 / t2, - phi / t2], [phi / t2, 1 / t2]]"

definition S2 :: "real list" where
  "S2 = [(3 + sqrt 5) / 2, (3 - sqrt 5) / 2]"

definition VT2 :: tensor2 where
  "VT2 = Tensor2 2 [[1 / t2, phi / t2], [- phi / t2, 1 / t2]]"

definition U2' :: tensor2 where
  "U2' = Tensor2 2 [[- 1 / t2, phi / t2], [- phi / t2, - 1 / t2]]"

definition VT2' :: tensor2 where
  "VT2' = Tensor2 2 [[- 1 / t2, - phi / t2], [phi / t2, - 1 / t2]]"

definition vw :: tensor2 where
  "vw = Tensor2 1 [[1/2], [1/2]]"

definition x2 :: tensor2 where
  "x2 = Tensor2 1 [[1], [1]]"

definition svd_two_faces :: svd_fn where
  "svd_two_faces A = Inr (U2, S2, VT2)"

definition svd_two_faces' :: svd_fn where
  "svd_two_faces' A = Inr (U2', S2, VT2')"

definition lstsq_two_faces :: lstsq_fn where
  "lstsq_two_faces A b = Inr vw"

definition mw :: MaxEntropyDice where
  "mw = \<lparr>num_faces = 2, mean_constraint = 3/2,
          constraint_projector = project (zeros 2 2) vw, p = [1, 1], grad = None\<rparr>"

subsection \<open>Six faces, mean \<open>9/2\<close>\<close>

text \<open>
  The notebook's system. With \<open>r = \<surd>8989\<close>, the matrix \<open>A A\<^sup>T\<close> has the eigenvalues
  \<open>(97 \<plusminus> r)/2\<close> and the eigenvectors \<open>(42, 85 \<plusminus> r)\<close>; \<open>bp\<close> and \<open>bm\<close> are the inverse norms of
  these, \<open>sp\<close> and \<open>sm\<close> the singular values, \<open>tp\<close> and \<open>tm\<close> their inverses. The first two
  rows of \<open>VT6\<close> span the row space of \<open>A6\<close>, the other four are an orthonormal basis of its
  kernel. \<open>v6\<close> is the least-squares solution, \<open>x6\<close> the initial \<open>p\<close> as a column.
\<close>

definition A6 :: tensor2 where
  "A6 = Tensor2 6 [[1, 1, 1, 1, 1, 1], [1, 2, 3, 4, 5, 6]]"

definition r6 :: real where
  "r6 = sqrt 8989"

definition bp :: real where
  "bp = 1 / sqrt (17978 + 170 * r6)"

definition bm :: real where
  "bm = 1 / sqrt (17978 - 170 * r6)"

definition sp :: real where
  "sp = sqrt ((97 + r6) / 2)"

definition sm :: real where
  "sm = sqrt ((97 - r6) / 2)"

definition tp :: real where
  "tp = 1 / sp"

definition tm :: real where
  "tm = 1 / sm"

definition s3 :: real where
  "s3 = sqrt 3"

definition s105 :: real where
  "s105 = sqrt 105"

definition U6 :: tensor2 where
  "U6 = Tensor2 2 [[42 * bp, 42 * bm], [(85 + r6) * bp, (85 - r6) * bm]]"

definition S6 :: "real list" where
  "S6 = [sp, sm]"

definition VT6 :: tensor2 where
  "VT6 = Tensor2 6
     [map (\<lambda>j. (42 + j * (85 + r6)) * (bp * tp)) [1, 2, 3, 4, 5, 6],
      map (\<lambda>j. (42 + j * (85 - r6)) * (bm * tm)) [1, 2, 3, 4, 5, 6],
      map (\<lambda>w. w / 2) [1, -1, 0, 0, -1, 1],
      map (\<lambda>w. w / 6 * s3) [1, 1, -2, -2, 1, 1],
      map (\<lambda>w. w / 6 * s3) [1, -2, 1, -1, 2, -1],
      map (\<lambda>w. w / 210 * s105) [5, -4, -13, 13, 4, -5]]"

definition v6 :: tensor2 where
  "v6 = Tensor2 1 [[5/210], [17/210], [29/210], [41/210], [53/210], [65/210]]"

definition x6 :: tensor2 where
  "x6 = Tensor2 1 [[1], [1], [1], [1], [1], [1]]"

definition svd_six_faces :: svd_fn where
  "svd_six_faces A = Inr (U6, S6, VT6)"

definition lstsq_six_faces :: lstsq_fn where
  "lstsq_six_faces A b = Inr v6"

subsection \<open>One face, mean \<open>2\<close>\<close>

text \<open>
  Both rows of the constraint matrix are \<open>(1)\<close> and the system \<open>x = 1\<close>, \<open>x = 2\<close> has no
  solution; \<open>3/2\<close> is its least-squares solution. The last two functions are library calls
  that raise.
\<close>

definition A1 :: tensor2 where
  "A1 = Tensor2 1 [[1], [1]]"

definition h1 :: real where
  "h1 = 1 / sqrt 2"

definition U1 :: tensor2 where
  "U1 = Tensor2 2 [[h1, - h1], [h1, h1]]"

definition S1 :: "real list" where
  "S1 = [sqrt 2]"

definition VT1 :: tensor2 where
  "VT1 = Tensor2 1 [[1]]"

definition v1 :: tensor2 where
  "v1 = Tensor2 1 [[3/2]]"

definition svd_one_face :: svd_fn where
  "svd_one_face A = Inr (U1, S1, VT1)"

definition lstsq_one_face :: lstsq_fn where
  "lstsq_one_face A b = Inr v1"

definition svd_failing :: svd_fn where
  "svd_failing A = Inl LinAlgError"

definition lstsq_failing :: lstsq_fn where
  "lstsq_failing A b = Inl LinAlgError"

section \<open>Tensor algebra\<close>

lemma sum_list_upt: "(\<Sum>k\<leftarrow>[0..<n]. f k) = sum f {..<n}"
  by (simp add: interv_sum_list_conv_sum_set_nat atLeast0LessThan)

lemma nrows_tabulate [simp]: "nrows (tabulate r c f) = r"
  by (simp add: nrows_def tabulate_def)

lemma ncols_tabulate [simp]: "ncols (tabulate r c f) = c"
  by (simp add: tabulate_def)

lemma entry_tabulate [simp]: "i < r \<Longrightarrow> j < c \<Longrightarrow> entry (tabulate r c f) i j = f i j"
  by (simp add: entry_def tabulate_def)

lemma has_shape_tabulate [simp]: "has_shape (tabulate r c f) r' c' \<longleftrightarrow> r' = r \<and> c' = c"
  by (auto simp: has_shape_def nrows_def tabulate_def list_all_iff)

lemma tabulate_cong: "(\<And>i j. i < r \<Longrightarrow> j < c \<Longrightarrow> f i j = g i j) \<Longrightarrow> tabulate r c f = tabulate r c g"
  by (simp add: tabulate_def)

lemma tabulate_entry: "has_shape T r c \<Longrightarrow> tabulate r c (entry T) = T"
proof -
  assume h: "has_shape T r c"
  have "map (\<lambda>i. map (\<lambda>j. rows T ! i ! j) [0..<c]) [0..<r] = rows T"
  proof (rule nth_equalityI)
    show "length (map (\<lambda>i. map (\<lambda>j. rows T ! i ! j) [0..<c]) [0..<r]) = length (rows T)"
      using h by (simp add: has_shape_def nrows_def)
  next
    fix i assume "i < length (map (\<lambda>i. map (\<lambda>j. rows T ! i ! j) [0..<c]) [0..<r])"
    then have i: "i < r" by simp
    then have "length (rows T ! i) = c"
      using h by (simp add: has_shape_def nrows_def list_all_length)
    then have "map (\<lambda>j. rows T ! i ! j) [0..<c] = rows T ! i"
      by (metis map_nth)
    then show "map (\<lambda>i. map (\<lambda>j. rows T ! i ! j) [0..<c]) [0..<r] ! i = rows T ! i"
      using i by simp
  qed
  then show ?thesis
    using h by (cases T) (simp add: tabulate_def entry_def has_shape_def)
qed

lemma tensor_eqI:
  assumes "has_shape X r c" "has_shape Y r c"
    and "\<And>i j. i < r \<Longrightarrow> j < c \<Longrightarrow> entry X i j = entry Y i j"
  shows "X = Y"
proof -
  have "tabulate r c (entry X) = tabulate r c (entry Y)"
    using assms(3) by (rule tabulate_cong)
  then show ?thesis
    using assms(1,2) by (simp add: tabulate_entry)
qed

lemma has_shape_nrows: "has_shape T r c \<Longrightarrow> nrows T = r"
  by (simp add: has_shape_def)

lemma has_shape_ncols: "has_shape T r c \<Longrightarrow> ncols T = c"
  by (simp add: has_shape_def)

lemma nrows_mm_raw [simp]: "nrows (mm_raw A B) = nrows A"
  by (simp add: mm_raw_def)

lemma ncols_mm_raw [simp]: "ncols (mm_raw A B) = ncols B"
  by (simp add: mm_raw_def)

lemma has_shape_mm_raw [simp]: "has_shape (mm_raw A B) r c \<longleftrightarrow> r = nrows A \<and> c = ncols B"
  by (auto simp add: mm_raw_def)

lemma entry_mm_raw:
  "i < nrows A \<Longrightarrow> j < ncols B \<Longrightarrow> entry (mm_raw A B) i j = (\<Sum>k<ncols A. entry A i k * entry B k j)"
  by (simp add: mm_raw_def sum_list_upt)

lemma mm_raw_assoc:
  assumes "ncols A = nrows B"
  shows "mm_raw (mm_raw A B) C = mm_raw A (mm_raw B C)"
proof (rule tensor_eqI[where r = "nrows A" and c = "ncols C"])
  fix i j assume ij: "i < nrows A" "j < ncols C"
  have "entry (mm_raw (mm_raw A B) C) i j
      = (\<Sum>k<ncols B. (\<Sum>l<ncols A. entry A i l * entry B l k) * entry C k j)"
    using ij by (simp add: entry_mm_raw)
  also have "\<dots> = (\<Sum>k<ncols B. \<Sum>l<ncols A. entry A i l * (entry B l k * entry C k j))"
    by (simp add: sum_distrib_right mult.assoc)
  also have "\<dots> = (\<Sum>l<ncols A. \<Sum>k<ncols B. entry A i l * (entry B l k * entry C k j))"
    by (rule sum.swap)
  also have "\<dots> = (\<Sum>l<ncols A. entry A i l * (\<Sum>k<ncols B. entry B l k * entry C k j))"
    by (simp add: sum_distrib_left)
  also have "\<dots> = entry (mm_raw A (mm_raw B C)) i j"
    using ij assms by (simp add: entry_mm_raw)
  finally show "entry (mm_raw (mm_raw A B) C) i j = entry (mm_raw A (mm_raw B C)) i j" .
qed simp_all


lemma nrows_transpose [simp]: "nrows (transpose_t T) = ncols T"
  by (simp add: transpose_t_def)

lemma ncols_transpose [simp]: "ncols (transpose_t T) = nrows T"
  by (simp add: transpose_t_def)

lemma has_shape_transpose [simp]: "has_shape (transpose_t T) r c \<longleftrightarrow> r = ncols T \<and> c = nrows T"
  by (auto simp add: transpose_t_def)

lemma entry_transpose [simp]:
  "i < ncols T \<Longrightarrow> j < nrows T \<Longrightarrow> entry (transpose_t T) i j = entry T j i"
  by (simp add: transpose_t_def)

lemma transpose_transpose: "has_shape T r c \<Longrightarrow> transpose_t (transpose_t T) = T"
  by (rule tensor_eqI[where r = r and c = c])
     (auto simp: has_shape_nrows has_shape_ncols)

lemma transpose_mm_raw:
  "ncols A = nrows B \<Longrightarrow> transpose_t (mm_raw A B) = mm_raw (transpose_t B) (transpose_t A)"
  by (rule tensor_eqI[where r = "ncols B" and c = "nrows A"])
     (simp_all add: entry_mm_raw mult.commute)

lemma nrows_slice_cols [simp]: "nrows (slice_cols k T) = nrows T"
  by (simp add: slice_cols_def nrows_def)

lemma ncols_slice_cols [simp]: "ncols (slice_cols k T) = ncols T - k"
  by (simp add: slice_cols_def)

lemma has_shape_slice_cols: "has_shape T r c \<Longrightarrow> has_shape (slice_cols k T) r (c - k)"
  by (auto simp: has_shape_def slice_cols_def nrows_def list_all_iff)

lemma entry_slice_cols:
  "has_shape T r c \<Longrightarrow> i < r \<Longrightarrow> k \<le> c \<Longrightarrow> entry (slice_cols k T) i j = entry T i (k + j)"
  by (simp add: has_shape_def slice_cols_def entry_def nrows_def list_all_length)

lemma sum_delta_right: "j < (n::nat) \<Longrightarrow> (\<Sum>k<n. f k * (if k = j then 1 else 0)) = (f j :: real)"
proof -
  assume "j < n"
  have "(\<Sum>k<n. f k * (if k = j then 1 else 0)) = (\<Sum>k\<in>{..<n}. if k = j then f k else 0)"
    by (rule sum.cong) auto
  also have "\<dots> = f j"
    using \<open>j < n\<close> by (simp add: sum.delta)
  finally show ?thesis .
qed

lemma sum_delta_left: "j < (n::nat) \<Longrightarrow> (\<Sum>k<n. (if j = k then 1 else 0) * f k) = (f j :: real)"
proof -
  assume "j < n"
  have "(\<Sum>k<n. (if j = k then 1 else 0) * f k) = (\<Sum>k\<in>{..<n}. if k = j then f k else 0)"
    by (rule sum.cong) auto
  also have "\<dots> = f j"
    using \<open>j < n\<close> by (simp add: sum.delta)
  finally show ?thesis .
qed

lemma mm_raw_eye_right: "has_shape A r n \<Longrightarrow> mm_raw A (eye n) = A"
proof (rule tensor_eqI[where r = r and c = n])
  assume h: "has_shape A r n"
  show "has_shape (mm_raw A (eye n)) r n" using h by (simp add: has_shape_nrows eye_def)
  show "has_shape A r n" by fact
  fix i j assume ij: "i < r" "j < n"
  have "entry (mm_raw A (eye n)) i j = (\<Sum>k<n. entry A i k * entry (eye n) k j)"
    using h ij by (simp add: entry_mm_raw has_shape_nrows has_shape_ncols eye_def)
  also have "\<dots> = (\<Sum>k<n. entry A i k * (if k = j then 1 else 0))"
    using ij by (intro sum.cong) (simp_all add: eye_def)
  also have "\<dots> = entry A i j"
    using ij(2) by (rule sum_delta_right)
  finally show "entry (mm_raw A (eye n)) i j = entry A i j" .
qed

lemma mm_raw_eye_left: "has_shape A n c \<Longrightarrow> mm_raw (eye n) A = A"
proof (rule tensor_eqI[where r = n and c = c])
  assume h: "has_shape A n c"
  show "has_shape (mm_raw (eye n) A) n c" using h by (simp add: has_shape_ncols eye_def)
  show "has_shape A n c" by fact
  fix i j assume ij: "i < n" "j < c"
  have "entry (mm_raw (eye n) A) i j = (\<Sum>k<n. entry (eye n) i k * entry A k j)"
    using h ij by (simp add: entry_mm_raw has_shape_nrows has_shape_ncols eye_def)
  also have "\<dots> = (\<Sum>k<n. (if i = k then 1 else 0) * entry A k j)"
    using ij by (intro sum.cong) (simp_all add: eye_def)
  also have "\<dots> = entry A i j"
    using ij(1) by (rule sum_delta_left)
  finally show "entry (mm_raw (eye n) A) i j = entry A i j" .
qed

lemma mm_raw_zeros_left: "mm_raw (zeros r n) B = zeros r (ncols B)"
  by (rule tensor_eqI[where r = r and c = "ncols B"]) (simp_all add: zeros_def entry_mm_raw)

lemma mm_raw_zeros_right: "ncols A = n \<Longrightarrow> mm_raw A (zeros n c) = zeros (nrows A) c"
  by (rule tensor_eqI[where r = "nrows A" and c = c]) (simp_all add: zeros_def entry_mm_raw)

subsection \<open>The kernel basis and its projector\<close>

lemma entry_kernel_basis:
  assumes "has_shape VT n n" "i < n" "a < n - k"
  shows "entry (slice_cols k (transpose_t VT)) i a = entry VT (k + a) i"
proof -
  have dims: "nrows VT = n" "ncols VT = n"
    using assms(1) by (simp_all add: has_shape_nrows has_shape_ncols)
  have "entry (slice_cols k (transpose_t VT)) i a = entry (transpose_t VT) i (k + a)"
    using assms dims by (intro entry_slice_cols[where r = n and c = n]) simp_all
  also have "\<dots> = entry VT (k + a) i"
    using assms dims by simp
  finally show ?thesis .
qed

lemma has_shape_kernel_basis:
  "has_shape VT n n \<Longrightarrow> has_shape (slice_cols k (transpose_t VT)) n (n - k)"
  by (rule has_shape_slice_cols) (simp add: has_shape_nrows has_shape_ncols)

lemma entry_gram:
  assumes "has_shape VT n n" "mm_raw VT (transpose_t VT) = eye n" "i < n" "j < n"
  shows "(\<Sum>l<n. entry VT i l * entry VT j l) = (if i = j then 1 else 0)"
proof -
  have dims: "nrows VT = n" "ncols VT = n"
    using assms(1) by (simp_all add: has_shape_nrows has_shape_ncols)
  have "entry (mm_raw VT (transpose_t VT)) i j = (\<Sum>l<n. entry VT i l * entry (transpose_t VT) l j)"
    using assms(3,4) dims by (simp add: entry_mm_raw)
  also have "\<dots> = (\<Sum>l<n. entry VT i l * entry VT j l)"
    using assms(3,4) dims by (intro sum.cong) simp_all
  finally show ?thesis
    using assms(2,3,4) by (simp add: eye_def)
qed

lemma kernel_basis_orthonormal:
  assumes "has_shape VT n n" "mm_raw VT (transpose_t VT) = eye n"
  shows "mm_raw (transpose_t (slice_cols k (transpose_t VT))) (slice_cols k (transpose_t VT))
         = eye (n - k)"
proof (rule tensor_eqI[where r = "n - k" and c = "n - k"])
  let ?K = "slice_cols k (transpose_t VT)"
  have K: "has_shape ?K n (n - k)"
    using assms(1) by (rule has_shape_kernel_basis)
  then have dims: "nrows ?K = n" "ncols ?K = n - k"
    by (simp_all add: has_shape_nrows has_shape_ncols del: nrows_slice_cols ncols_slice_cols)
  show "has_shape (mm_raw (transpose_t ?K) ?K) (n - k) (n - k)"
    using dims by simp
  show "has_shape (eye (n - k)) (n - k) (n - k)"
    by (simp add: eye_def)
  fix a b assume ab: "a < n - k" "b < n - k"
  have "entry (mm_raw (transpose_t ?K) ?K) a b = (\<Sum>i<n. entry (transpose_t ?K) a i * entry ?K i b)"
    using ab dims by (simp add: entry_mm_raw del: nrows_slice_cols ncols_slice_cols)
  also have "\<dots> = (\<Sum>i<n. entry VT (k + a) i * entry VT (k + b) i)"
  proof (rule sum.cong)
    fix i assume "i \<in> {..<n}"
    then have i: "i < n" by simp
    have "entry (transpose_t ?K) a i = entry ?K i a"
      using ab i dims by (simp del: nrows_slice_cols ncols_slice_cols)
    then show "entry (transpose_t ?K) a i * entry ?K i b = entry VT (k + a) i * entry VT (k + b) i"
      using assms(1) i ab by (simp add: entry_kernel_basis)
  qed simp
  also have "\<dots> = (if k + a = k + b then 1 else 0)"
    using assms ab by (intro entry_gram) simp_all
  also have "\<dots> = entry (eye (n - k)) a b"
    using ab by (simp add: eye_def)
  finally show "entry (mm_raw (transpose_t ?K) ?K) a b = entry (eye (n - k)) a b" .
qed

lemma VT_kernel_basis:
  assumes "has_shape VT n n" "mm_raw VT (transpose_t VT) = eye n"
  shows "mm_raw VT (slice_cols k (transpose_t VT))
         = tabulate n (n - k) (\<lambda>l a. if l = k + a then 1 else 0)"
proof (rule tensor_eqI[where r = n and c = "n - k"])
  let ?K = "slice_cols k (transpose_t VT)"
  have vdims: "nrows VT = n" "ncols VT = n"
    using assms(1) by (simp_all add: has_shape_nrows has_shape_ncols)
  show "has_shape (mm_raw VT ?K) n (n - k)"
    using vdims by simp
  show "has_shape (tabulate n (n - k) (\<lambda>l a. if l = k + a then 1 else 0)) n (n - k)"
    by simp
  fix l a assume la: "l < n" "a < n - k"
  have "entry (mm_raw VT ?K) l a = (\<Sum>i<n. entry VT l i * entry ?K i a)"
    using la vdims by (simp add: entry_mm_raw)
  also have "\<dots> = (\<Sum>i<n. entry VT l i * entry VT (k + a) i)"
    using assms(1) la by (intro sum.cong) (simp_all add: entry_kernel_basis)
  also have "\<dots> = (if l = k + a then 1 else 0)"
    using assms la by (intro entry_gram) simp_all
  finally show "entry (mm_raw VT ?K) l a
      = entry (tabulate n (n - k) (\<lambda>l a. if l = k + a then 1 else 0)) l a"
    using la by simp
qed

text \<open>The matrix \<open>P = K K\<^sup>T\<close>.\<close>

lemma kernel_projector_symmetric:
  "transpose_t (mm_raw K (transpose_t K)) = mm_raw K (transpose_t K)"
  by (rule tensor_eqI[where r = "nrows K" and c = "nrows K"])
     (simp_all add: entry_mm_raw mult.commute)

lemma kernel_projector_idempotent:
  assumes "has_shape K n d" "mm_raw (transpose_t K) K = eye d"
  shows "mm_raw (mm_raw K (transpose_t K)) (mm_raw K (transpose_t K)) = mm_raw K (transpose_t K)"
proof -
  have dims: "nrows K = n" "ncols K = d"
    using assms(1) by (simp_all add: has_shape_nrows has_shape_ncols)
  have "mm_raw (mm_raw K (transpose_t K)) (mm_raw K (transpose_t K))
      = mm_raw K (mm_raw (transpose_t K) (mm_raw K (transpose_t K)))"
    by (rule mm_raw_assoc) simp
  also have "mm_raw (transpose_t K) (mm_raw K (transpose_t K))
      = mm_raw (mm_raw (transpose_t K) K) (transpose_t K)"
    by (rule mm_raw_assoc[symmetric]) simp
  also have "\<dots> = transpose_t K"
    using dims by (simp add: assms(2) mm_raw_eye_left)
  finally show ?thesis .
qed

lemma diag_embed_shift:
  assumes "k = min m n"
  shows "mm_raw (diag_embed m n S) (tabulate n (n - k) (\<lambda>l a. if l = k + a then 1 else 0))
         = zeros m (n - k)"
proof (rule tensor_eqI[where r = m and c = "n - k"])
  show "has_shape (mm_raw (diag_embed m n S) (tabulate n (n - k) (\<lambda>l a. if l = k + a then 1 else 0))) m (n - k)"
    by (simp add: diag_embed_def)
  show "has_shape (zeros m (n - k)) m (n - k)"
    by (simp add: zeros_def)
  fix q a assume qa: "q < m" "a < n - k"
  then have ka: "k + a < n" and qk: "q \<noteq> k + a"
    using assms by auto
  have "entry (mm_raw (diag_embed m n S) (tabulate n (n - k) (\<lambda>l a. if l = k + a then 1 else 0))) q a
      = (\<Sum>l<n. entry (diag_embed m n S) q l * entry (tabulate n (n - k) (\<lambda>l a. if l = k + a then 1 else 0)) l a)"
    using qa by (simp add: entry_mm_raw diag_embed_def)
  also have "\<dots> = (\<Sum>l<n. entry (diag_embed m n S) q l * (if l = k + a then 1 else 0))"
    using qa by (intro sum.cong) simp_all
  also have "\<dots> = entry (diag_embed m n S) q (k + a)"
    using ka by (rule sum_delta_right)
  also have "\<dots> = 0"
    using qa ka qk by (simp add: diag_embed_def)
  finally show "entry (mm_raw (diag_embed m n S) (tabulate n (n - k) (\<lambda>l a. if l = k + a then 1 else 0))) q a
      = entry (zeros m (n - k)) q a"
    using qa by (simp add: zeros_def)
qed

lemma svd_kernel_basis:
  assumes "is_svd A U S VT"
  shows "mm_raw A (slice_cols (length S) (transpose_t VT)) = zeros (nrows A) (ncols A - length S)"
proof -
  let ?m = "nrows A" and ?n = "ncols A" and ?k = "length S"
  let ?K = "slice_cols ?k (transpose_t VT)"
  let ?D = "diag_embed ?m ?n S"
  let ?E = "tabulate ?n (?n - ?k) (\<lambda>l a. if l = ?k + a then (1::real) else 0)"
  have U: "has_shape U ?m ?m" and VT: "has_shape VT ?n ?n" and k: "?k = min ?m ?n"
    and o: "mm_raw VT (transpose_t VT) = eye ?n"
    and A: "mm_raw (mm_raw U ?D) VT = A"
    using assms by (auto simp add: is_svd_def orthogonal_def dest: has_shape_nrows)
  have "mm_raw A ?K = mm_raw (mm_raw (mm_raw U ?D) VT) ?K"
    by (simp add: A)
  also have "\<dots> = mm_raw (mm_raw U ?D) (mm_raw VT ?K)"
    using VT by (intro mm_raw_assoc) (simp add: diag_embed_def has_shape_nrows)
  also have "mm_raw VT ?K = ?E"
    using VT o by (rule VT_kernel_basis)
  also have "mm_raw (mm_raw U ?D) ?E = mm_raw U (mm_raw ?D ?E)"
    using U by (intro mm_raw_assoc) (simp add: diag_embed_def has_shape_ncols)
  also have "mm_raw ?D ?E = zeros ?m (?n - ?k)"
    using k by (rule diag_embed_shift)
  also have "mm_raw U (zeros ?m (?n - ?k)) = zeros ?m (?n - ?k)"
    using U by (simp add: mm_raw_zeros_right has_shape_nrows has_shape_ncols)
  finally show ?thesis .
qed

lemma svd_kernel_projector:
  assumes "is_svd A U S VT" "K = slice_cols (length S) (transpose_t VT)"
  shows "mm_raw A (mm_raw K (transpose_t K)) = zeros (nrows A) (ncols A)"
proof -
  have VT: "has_shape VT (ncols A) (ncols A)"
    using assms(1) by (simp add: is_svd_def)
  have K: "has_shape K (ncols A) (ncols A - length S)"
    unfolding assms(2) using VT by (rule has_shape_kernel_basis)
  have "mm_raw A (mm_raw K (transpose_t K)) = mm_raw (mm_raw A K) (transpose_t K)"
    using K by (intro mm_raw_assoc[symmetric]) (simp add: has_shape_nrows)
  also have "mm_raw A K = zeros (nrows A) (ncols A - length S)"
    unfolding assms(2) using assms(1) by (rule svd_kernel_basis)
  also have "mm_raw (zeros (nrows A) (ncols A - length S)) (transpose_t K) = zeros (nrows A) (ncols A)"
    using K by (simp add: mm_raw_zeros_left has_shape_nrows)
  finally show ?thesis .
qed

subsection \<open>Elementwise operations\<close>

lemma bidx_same: "i < d \<Longrightarrow> bidx d i = i"
  by (auto simp: bidx_def)

lemma elementwise_same_shape:
  assumes "has_shape X r c" "has_shape Y r c"
  shows "elementwise f X Y = Inr (tabulate r c (\<lambda>i j. f (entry X i j) (entry Y i j)))"
proof -
  have dims: "nrows X = r" "ncols X = c" "nrows Y = r" "ncols Y = c"
    using assms by (simp_all add: has_shape_nrows has_shape_ncols)
  have "tabulate (bdim r r) (bdim c c)
          (\<lambda>i j. f (entry X (bidx r i) (bidx c j)) (entry Y (bidx r i) (bidx c j)))
      = tabulate r c (\<lambda>i j. f (entry X i j) (entry Y i j))"
    unfolding bdim_def by (simp add: bidx_same cong: tabulate_cong)
  then show ?thesis
    by (simp add: elementwise_def dims broadcastable_def)
qed

lemma tadd_same_shape: "has_shape X r c \<Longrightarrow> has_shape Y r c \<Longrightarrow> tadd X Y = Inr (add_raw X Y)"
  by (simp add: tadd_def add_raw_def elementwise_same_shape has_shape_nrows has_shape_ncols)

lemma tsub_same_shape: "has_shape X r c \<Longrightarrow> has_shape Y r c \<Longrightarrow> tsub X Y = Inr (sub_raw X Y)"
  by (simp add: tsub_def sub_raw_def elementwise_same_shape has_shape_nrows has_shape_ncols)

lemma has_shape_add_raw [simp]: "has_shape (add_raw X Y) r c \<longleftrightarrow> r = nrows X \<and> c = ncols X"
  by (auto simp: add_raw_def)

lemma has_shape_sub_raw [simp]: "has_shape (sub_raw X Y) r c \<longleftrightarrow> r = nrows X \<and> c = ncols X"
  by (auto simp: sub_raw_def)

lemma nrows_add_raw [simp]: "nrows (add_raw X Y) = nrows X"
  by (simp add: add_raw_def)

lemma ncols_add_raw [simp]: "ncols (add_raw X Y) = ncols X"
  by (simp add: add_raw_def)

lemma nrows_sub_raw [simp]: "nrows (sub_raw X Y) = nrows X"
  by (simp add: sub_raw_def)

lemma ncols_sub_raw [simp]: "ncols (sub_raw X Y) = ncols X"
  by (simp add: sub_raw_def)

lemma entry_add_raw [simp]:
  "i < nrows X \<Longrightarrow> j < ncols X \<Longrightarrow> entry (add_raw X Y) i j = entry X i j + entry Y i j"
  by (simp add: add_raw_def)

lemma entry_sub_raw [simp]:
  "i < nrows X \<Longrightarrow> j < ncols X \<Longrightarrow> entry (sub_raw X Y) i j = entry X i j - entry Y i j"
  by (simp add: sub_raw_def)

lemma entry_zeros [simp]: "i < r \<Longrightarrow> j < c \<Longrightarrow> entry (zeros r c) i j = 0"
  by (simp add: zeros_def)

lemma has_shape_zeros [simp]: "has_shape (zeros r c) r' c' \<longleftrightarrow> r' = r \<and> c' = c"
  by (simp add: zeros_def)

lemma nrows_zeros [simp]: "nrows (zeros r c) = r"
  by (simp add: zeros_def)

lemma ncols_zeros [simp]: "ncols (zeros r c) = c"
  by (simp add: zeros_def)

lemma add_raw_zeros: "has_shape X r c \<Longrightarrow> add_raw X (zeros r c) = X"
  by (rule tensor_eqI[where r = r and c = c])
     (auto simp: has_shape_nrows has_shape_ncols)

lemma sub_raw_self: "sub_raw X X = zeros (nrows X) (ncols X)"
  by (rule tensor_eqI[where r = "nrows X" and c = "ncols X"]) simp_all

lemma sub_raw_add_raw:
  assumes "has_shape X r c" "has_shape Y r c"
  shows "sub_raw (add_raw X Y) X = Y"
  using assms
  by (intro tensor_eqI[where r = r and c = c])
     (auto simp: has_shape_nrows has_shape_ncols)

lemma mm_raw_add_raw:
  assumes "ncols A = nrows X" "ncols Y = ncols X"
  shows "mm_raw A (add_raw X Y) = add_raw (mm_raw A X) (mm_raw A Y)"
proof (rule tensor_eqI[where r = "nrows A" and c = "ncols X"])
  fix i j assume ij: "i < nrows A" "j < ncols X"
  have "entry (mm_raw A (add_raw X Y)) i j = (\<Sum>k<ncols A. entry A i k * entry (add_raw X Y) k j)"
    using ij by (simp add: entry_mm_raw)
  also have "\<dots> = (\<Sum>k<ncols A. entry A i k * entry X k j + entry A i k * entry Y k j)"
    using ij assms by (intro sum.cong) (simp_all add: distrib_left)
  also have "\<dots> = entry (add_raw (mm_raw A X) (mm_raw A Y)) i j"
    using ij assms by (simp add: entry_mm_raw sum.distrib)
  finally show "entry (mm_raw A (add_raw X Y)) i j = entry (add_raw (mm_raw A X) (mm_raw A Y)) i j" .
qed simp_all

subsection \<open>Construction\<close>

lemma constraint_A_eq: "constraint_A n = Inr (Tensor2 n [ones n, arange1 n])"
  by (simp add: constraint_A_def stack_def ones_def arange1_def)

lemma constraint_A_shape: "constraint_A n = Inr A \<Longrightarrow> has_shape A 2 n"
  by (auto simp: constraint_A_eq has_shape_def nrows_def ones_def arange1_def)

lemma constraint_A_row0: "constraint_A n = Inr A \<Longrightarrow> j < n \<Longrightarrow> entry A 0 j = 1"
  by (auto simp: constraint_A_eq entry_def ones_def)

lemma constraint_A_row1: "constraint_A n = Inr A \<Longrightarrow> j < n \<Longrightarrow> entry A (Suc 0) j = real j + 1"
  by (auto simp: constraint_A_eq entry_def arange1_def nth_map_upt add.commute simp del: upt_Suc)

lemma constraint_b_shape [simp]:
  "has_shape (constraint_b mean) 2 (Suc 0)" "has_shape (constraint_b mean) 2 1"
  by (simp_all add: constraint_b_def has_shape_def nrows_def)

lemma constraint_b_entries [simp]:
  "entry (constraint_b mean) 0 0 = 1" "entry (constraint_b mean) (Suc 0) 0 = mean"
  by (simp_all add: constraint_b_def entry_def)

lemma mm_conform: "ncols A = nrows B \<Longrightarrow> mm A B = Inr (mm_raw A B)"
  by (simp add: mm_def)

lemma projector_captures_eq:
  assumes "constraint_A n = Inr A" "svd A = Inr (U, S, VT)"
    and "lstsq A (constraint_b mean) = Inr v"
    and "K = slice_cols (length S) (transpose_t VT)"
  shows "projector_captures svd lstsq n mean = Inr (mm_raw K (transpose_t K), v)"
  using assms by (simp add: projector_captures_def mm_conform Let_def)

lemma compute_constraint_projector_eq:
  assumes "constraint_A n = Inr A" "svd A = Inr (U, S, VT)"
    and "lstsq A (constraint_b mean) = Inr v"
    and "K = slice_cols (length S) (transpose_t VT)"
  shows "compute_constraint_projector svd lstsq n mean = Inr (project (mm_raw K (transpose_t K)) v)"
  using assms by (simp add: compute_constraint_projector_def projector_captures_eq[where A = A])

lemma project_eq:
  assumes "has_shape P n n" "has_shape v n 1" "has_shape x n 1"
  shows "project P v x = Inr (add_raw v (mm_raw P (sub_raw x v)))"
proof -
  have d: "tsub x v = Inr (sub_raw x v)"
    using assms(3,2) by (rule tsub_same_shape)
  have dims: "ncols P = n" "nrows P = n" "nrows x = n" "ncols x = 1" "nrows v = n" "ncols v = 1"
    using assms by (simp_all add: has_shape_nrows has_shape_ncols)
  have y: "mm P (sub_raw x v) = Inr (mm_raw P (sub_raw x v))"
    using dims by (simp add: mm_conform)
  have "tadd v (mm_raw P (sub_raw x v)) = Inr (add_raw v (mm_raw P (sub_raw x v)))"
    using assms(2) by (rule tadd_same_shape) (simp add: dims)
  then show ?thesis
    by (simp add: project_def d y)
qed

lemma kernel_projector_shape:
  "has_shape VT n n \<Longrightarrow> K = slice_cols k (transpose_t VT) \<Longrightarrow> has_shape (mm_raw K (transpose_t K)) n n"
  by (simp add: has_shape_nrows has_shape_ncols)

subsection \<open>What the loop leaves alone\<close>

lemma copy_into_length: "copy_into dst src = Inr q \<Longrightarrow> length q = length dst"
  by (auto simp: copy_into_def split: if_splits)

lemma enforce_constraint_frame:
  assumes "enforce_constraint m = Inr m'"
  shows "m' = m\<lparr>p := p m'\<rparr> \<and> length (p m') = length (p m)"
  using assms
  by (auto simp: enforce_constraint_def split: sum.splits dest: copy_into_length)

lemma loss_backward_frame:
  assumes "loss_backward m = Inr m'"
  shows "m' = m\<lparr>grad := grad m'\<rparr>"
  using assms by (auto simp: loss_backward_def Let_def split: if_splits)

lemma optimizer_step_frame:
  "optimizer_step lr m = m\<lparr>p := p (optimizer_step lr m)\<rparr>"
  by (simp add: optimizer_step_def split: option.splits)

lemma iteration_frame:
  assumes "iteration lr m = Inr m'"
  shows "num_faces m' = num_faces m \<and> mean_constraint m' = mean_constraint m \<and>
         constraint_projector m' = constraint_projector m \<and> length (p m') = length (p m)"
proof -
  obtain m1 where m1: "loss_backward (zero_grad m) = Inr m1"
    and e: "enforce_constraint (optimizer_step lr m1) = Inr m'"
    using assms by (auto simp: iteration_def split: sum.splits)
  have 1: "m1 = (zero_grad m)\<lparr>grad := grad m1\<rparr>"
    using m1 by (rule loss_backward_frame)
  have g: "length (backward (p m) loss_graph [1]) = length (p m)"
    by (simp add: loss_graph_def entropy_graph_def)
  have pm1: "p m1 = p m" and gm1: "grad m1 = Some (backward (p m) loss_graph [1])"
    using m1 by (auto simp: loss_backward_def zero_grad_def Let_def split: if_splits)
  have len: "length (p (optimizer_step lr m1)) = length (p m)"
    by (simp add: optimizer_step_def gm1 pm1 g)
  have 2: "m' = (optimizer_step lr m1)\<lparr>p := p m'\<rparr>" "length (p m') = length (p (optimizer_step lr m1))"
    using enforce_constraint_frame[OF e] by simp_all
  have f1: "num_faces m1 = num_faces m" "mean_constraint m1 = mean_constraint m"
      "constraint_projector m1 = constraint_projector m"
    by (subst 1, simp add: zero_grad_def)+
  have f2: "num_faces (optimizer_step lr m1) = num_faces m1"
      "mean_constraint (optimizer_step lr m1) = mean_constraint m1"
      "constraint_projector (optimizer_step lr m1) = constraint_projector m1"
    by (subst optimizer_step_frame, simp)+
  have f3: "num_faces m' = num_faces (optimizer_step lr m1)"
      "mean_constraint m' = mean_constraint (optimizer_step lr m1)"
      "constraint_projector m' = constraint_projector (optimizer_step lr m1)"
    by (subst 2(1), simp)+
  show ?thesis
    using f1 f2 f3 2(2) len by simp
qed

lemma optimize_frame:
  "optimize lr k m = Inr m' \<Longrightarrow>
     num_faces m' = num_faces m \<and> mean_constraint m' = mean_constraint m \<and>
     constraint_projector m' = constraint_projector m \<and> length (p m') = length (p m)"
proof (induction k arbitrary: m)
  case 0
  then show ?case by simp
next
  case (Suc k)
  then obtain m1 where s: "iteration lr m = Inr m1" and r: "optimize lr k m1 = Inr m'"
    by (auto split: sum.splits)
  show ?case
    using iteration_frame[OF s] Suc.IH[OF r] by simp
qed

subsection \<open>Rank, consistency and the least-squares solution\<close>

lemma sum_pick: "j < (n::nat) \<Longrightarrow> (\<Sum>k<n. f k * (if k = j then c else 0)) = (f j * c :: real)"
proof -
  assume "j < n"
  have "(\<Sum>k<n. f k * (if k = j then c else 0)) = (\<Sum>k<n. (f k * c) * (if k = j then 1 else 0))"
    by (rule sum.cong) auto
  also have "\<dots> = f j * c"
    using \<open>j < n\<close> by (rule sum_delta_right)
  finally show ?thesis .
qed

lemma sum_pick2:
  assumes "2 \<le> (n::nat)"
  shows "(\<Sum>k<n. f k * (if k = 0 then a else if k = 1 then b else 0)) = (f 0 * a + f 1 * b :: real)"
proof -
  have "(\<Sum>k<n. f k * (if k = 0 then a else if k = 1 then b else 0))
      = (\<Sum>k<n. f k * (if k = 0 then a else 0) + f k * (if k = 1 then b else 0))"
    by (rule sum.cong) auto
  also have "\<dots> = (\<Sum>k<n. f k * (if k = 0 then a else 0)) + (\<Sum>k<n. f k * (if k = 1 then b else 0))"
    by (rule sum.distrib)
  also have "\<dots> = f 0 * a + f 1 * b"
    using assms by (simp add: sum_pick)
  finally show ?thesis .
qed

lemma constraint_A_full_row_rank:
  assumes "constraint_A n = Inr A"
  shows "full_row_rank A \<longleftrightarrow> 2 \<le> n"
proof
  have nc: "ncols A = n"
    using constraint_A_shape[OF assms] by (rule has_shape_ncols)
  {
    assume "full_row_rank A"
    then obtain i j where ij: "i < n" "j < n"
      and ne: "entry A 0 i * entry A 1 j - entry A 0 j * entry A 1 i \<noteq> 0"
      by (auto simp: full_row_rank_def nc)
    have "i \<noteq> j"
      using ne by auto
    then show "2 \<le> n"
      using ij by linarith
  }
  {
    assume n: "2 \<le> n"
    have "entry A 0 0 * entry A 1 1 - entry A 0 1 * entry A 1 0 \<noteq> 0"
      using n by (simp add: constraint_A_row0[OF assms] constraint_A_row1[OF assms])
    then show "full_row_rank A"
      using n unfolding full_row_rank_def nc by (intro bexI[where x = 0] bexI[where x = 1]) auto
  }
qed

lemma constraint_system_consistent:
  assumes "constraint_A n = Inr A" "2 \<le> n"
  shows "consistent A (constraint_b mean)"
proof -
  let ?x = "tabulate n 1 (\<lambda>i j. if i = 0 then 2 - mean else if i = 1 then mean - 1 else 0)"
  have A: "has_shape A 2 n"
    using assms(1) by (rule constraint_A_shape)
  then have dims: "nrows A = 2" "ncols A = n"
    by (simp_all add: has_shape_nrows has_shape_ncols)
  have "mm_raw A ?x = constraint_b mean"
  proof (rule tensor_eqI[where r = 2 and c = 1])
    fix i j :: nat assume ij: "i < 2" "j < 1"
    have "entry (mm_raw A ?x) i j = (\<Sum>l<n. entry A i l * entry ?x l j)"
      using ij dims by (simp add: entry_mm_raw)
    also have "\<dots> = (\<Sum>l<n. entry A i l * (if l = 0 then 2 - mean else if l = 1 then mean - 1 else 0))"
      using ij by (intro sum.cong) simp_all
    also have "\<dots> = entry A i 0 * (2 - mean) + entry A i 1 * (mean - 1)"
      using assms(2) by (rule sum_pick2)
    also have "\<dots> = entry (constraint_b mean) i j"
    proof (cases "i = 0")
      case True
      then show ?thesis
        using ij assms(2) by (simp add: constraint_A_row0[OF assms(1)])
    next
      case False
      then have "i = 1" using ij by simp
      then show ?thesis
        using ij assms(2)
        by (simp add: constraint_A_row1[OF assms(1)])
    qed
    finally show "entry (mm_raw A ?x) i j = entry (constraint_b mean) i j" .
  qed (simp_all add: dims)
  then show ?thesis
    unfolding consistent_def dims by (intro exI[where x = ?x]) simp
qed

lemma sq_residual_nonneg: "0 \<le> sq_residual A b x"
  by (auto simp: sq_residual_def intro!: sum_list_nonneg)

lemma sq_residual_zero_iff:
  assumes "has_shape b (nrows A) 1" "ncols x = 1"
  shows "sq_residual A b x = 0 \<longleftrightarrow> mm_raw A x = b"
proof
  assume z: "sq_residual A b x = 0"
  have "(\<Sum>i<nrows A. (entry (mm_raw A x) i 0 - entry b i 0)\<^sup>2) = 0"
    using z by (simp add: sq_residual_def sum_list_upt)
  then have e: "\<And>i. i < nrows A \<Longrightarrow> entry (mm_raw A x) i 0 = entry b i 0"
    by (simp add: sum_nonneg_eq_0_iff)
  show "mm_raw A x = b"
    using assms e by (intro tensor_eqI[where r = "nrows A" and c = 1]) simp_all
next
  assume "mm_raw A x = b"
  then show "sq_residual A b x = 0"
    by (simp add: sq_residual_def)
qed

lemma lstsq_solves:
  assumes "is_least_squares A b v" "consistent A b" "has_shape b (nrows A) 1"
  shows "mm_raw A v = b"
proof -
  obtain x where x: "has_shape x (ncols A) 1" "mm_raw A x = b"
    using assms(2) by (auto simp: consistent_def)
  have v: "has_shape v (ncols A) 1"
    using assms(1) by (simp add: is_least_squares_def)
  have "sq_residual A b x = 0"
    using x assms(3) by (simp add: sq_residual_zero_iff has_shape_ncols)
  moreover have "sq_residual A b v \<le> sq_residual A b x"
    using assms(1) x(1) by (simp add: is_least_squares_def)
  ultimately have "sq_residual A b v = 0"
    using sq_residual_nonneg[of A b v] by simp
  then show ?thesis
    using v assms(3) by (simp add: sq_residual_zero_iff has_shape_ncols)
qed

subsection \<open>Uniqueness of the least-squares solution\<close>

lemma sq_norm_sum: "sq_norm x = (\<Sum>i<nrows x. (entry x i 0)\<^sup>2)"
  by (simp add: sq_norm_def sum_list_upt)

lemma sq_residual_sum:
  "sq_residual A b x = (\<Sum>i<nrows A. (entry (mm_raw A x) i 0 - entry b i 0)\<^sup>2)"
  by (simp add: sq_residual_def sum_list_upt)

lemma sum_two: "(\<Sum>i<2. f i) = f 0 + (f (Suc 0) :: real)"
  by (simp add: eval_nat_numeral)

lemma entry_mm_raw_column:
  "i < nrows A \<Longrightarrow> ncols x = 1 \<Longrightarrow> entry (mm_raw A x) i 0 = (\<Sum>k<ncols A. entry A i k * entry x k 0)"
  by (simp add: entry_mm_raw)

lemma is_lstsq_least_squares: "is_lstsq A b v \<Longrightarrow> is_least_squares A b v"
  by (simp add: is_lstsq_def)

lemma lstsq_unique:
  assumes "is_lstsq A b v" "is_lstsq A b v'"
  shows "v = v'"
proof -
  define n where "n = ncols A"
  have v: "has_shape v n 1" and v': "has_shape v' n 1"
    using assms by (simp_all add: is_lstsq_def is_least_squares_def n_def)
  have dims: "nrows v = n" "ncols v = 1" "nrows v' = n" "ncols v' = 1"
    using v v' by (simp_all add: has_shape_nrows has_shape_ncols)
  define mid where "mid = tabulate n 1 (\<lambda>i j. (entry v i 0 + entry v' i 0) / 2)"
  have mid: "has_shape mid n 1"
    by (simp add: mid_def)
  have res_eq: "sq_residual A b v = sq_residual A b v'"
    using assms v v' by (auto simp: is_lstsq_def is_least_squares_def n_def intro: antisym)
  have Amid: "entry (mm_raw A mid) i 0 = (entry (mm_raw A v) i 0 + entry (mm_raw A v') i 0) / 2"
    if "i < nrows A" for i
  proof -
    have "entry (mm_raw A mid) i 0 = (\<Sum>k<n. entry A i k * entry mid k 0)"
      using that mid by (simp add: entry_mm_raw_column n_def has_shape_ncols)
    also have "\<dots> = (\<Sum>k<n. entry A i k * ((entry v k 0 + entry v' k 0) / 2))"
      by (intro sum.cong) (simp_all add: mid_def)
    also have "\<dots> = ((\<Sum>k<n. entry A i k * entry v k 0) + (\<Sum>k<n. entry A i k * entry v' k 0)) / 2"
      by (simp add: sum.distrib[symmetric] sum_divide_distrib distrib_left)
    finally show ?thesis
      using that dims by (simp add: entry_mm_raw_column n_def)
  qed
  have "sq_residual A b mid \<le> (sq_residual A b v + sq_residual A b v') / 2"
  proof -
    have "(\<Sum>i<nrows A. (entry (mm_raw A mid) i 0 - entry b i 0)\<^sup>2)
        \<le> (\<Sum>i<nrows A. ((entry (mm_raw A v) i 0 - entry b i 0)\<^sup>2
              + (entry (mm_raw A v') i 0 - entry b i 0)\<^sup>2) / 2)"
    proof (rule sum_mono)
      fix i assume "i \<in> {..<nrows A}"
      then have i: "i < nrows A" by simp
      define s where "s = entry (mm_raw A v) i 0 - entry b i 0"
      define t where "t = entry (mm_raw A v') i 0 - entry b i 0"
      have st: "entry (mm_raw A mid) i 0 - entry b i 0 = (s + t) / 2"
        by (simp add: Amid[OF i] s_def t_def field_simps)
      have "((s + t) / 2)\<^sup>2 \<le> (s\<^sup>2 + t\<^sup>2) / 2"
      proof -
        have "(s\<^sup>2 + t\<^sup>2) / 2 - ((s + t) / 2)\<^sup>2 = ((s - t) / 2)\<^sup>2"
          by (simp add: power2_eq_square field_simps)
        then show ?thesis
          by (metis diff_ge_0_iff_ge zero_le_power2)
      qed
      then show "(entry (mm_raw A mid) i 0 - entry b i 0)\<^sup>2
          \<le> ((entry (mm_raw A v) i 0 - entry b i 0)\<^sup>2 + (entry (mm_raw A v') i 0 - entry b i 0)\<^sup>2) / 2"
        unfolding st unfolding s_def t_def .
    qed
    also have "\<dots> = ((\<Sum>i<nrows A. (entry (mm_raw A v) i 0 - entry b i 0)\<^sup>2)
          + (\<Sum>i<nrows A. (entry (mm_raw A v') i 0 - entry b i 0)\<^sup>2)) / 2"
      by (simp only: sum_divide_distrib[symmetric] sum.distrib)
    finally show ?thesis
      by (simp only: sq_residual_sum)
  qed
  moreover have "sq_residual A b v \<le> sq_residual A b mid"
    using assms(1) mid by (simp add: is_lstsq_def is_least_squares_def n_def)
  ultimately have res_mid: "sq_residual A b mid = sq_residual A b v"
    using res_eq by simp
  have n1: "sq_norm v \<le> sq_norm mid"
    using assms(1) mid res_mid by (simp add: is_lstsq_def is_least_squares_def n_def)
  have n2: "sq_norm v' \<le> sq_norm mid"
    using assms(2) mid res_mid res_eq by (simp add: is_lstsq_def is_least_squares_def n_def)
  have "(\<Sum>i<n. ((entry v i 0 - entry v' i 0) / 2)\<^sup>2)
      = (\<Sum>i<n. ((entry v i 0)\<^sup>2 + (entry v' i 0)\<^sup>2) / 2 - ((entry v i 0 + entry v' i 0) / 2)\<^sup>2)"
    by (rule sum.cong) (simp_all add: power2_eq_square field_simps)
  also have "\<dots> = ((\<Sum>i<n. (entry v i 0)\<^sup>2) + (\<Sum>i<n. (entry v' i 0)\<^sup>2)) / 2
        - (\<Sum>i<n. ((entry v i 0 + entry v' i 0) / 2)\<^sup>2)"
    by (simp only: sum_subtractf sum_divide_distrib[symmetric] sum.distrib)
  also have "(\<Sum>i<n. ((entry v i 0 + entry v' i 0) / 2)\<^sup>2) = sq_norm mid"
    unfolding sq_norm_sum using mid by (intro sum.cong) (simp_all add: mid_def)
  also have "((\<Sum>i<n. (entry v i 0)\<^sup>2) + (\<Sum>i<n. (entry v' i 0)\<^sup>2)) / 2 - sq_norm mid
      = (sq_norm v + sq_norm v') / 2 - sq_norm mid"
    by (simp add: sq_norm_sum dims)
  also have "\<dots> \<le> 0"
    using n1 n2 by simp
  finally have "(\<Sum>i<n. ((entry v i 0 - entry v' i 0) / 2)\<^sup>2) = 0"
    by (simp add: sum_nonneg order_antisym)
  then have e: "\<And>i. i < n \<Longrightarrow> entry v i 0 = entry v' i 0"
    by (simp add: sum_nonneg_eq_0_iff)
  show ?thesis
    using v v' e by (intro tensor_eqI[where r = n and c = 1]) simp_all
qed

lemma is_lstsq_row_spaceI:
  assumes "has_shape A r n" "has_shape w r 1"
    and "v = mm_raw (transpose_t A) w" "mm_raw A v = b"
  shows "is_lstsq A b v"
proof -
  have dims: "nrows A = r" "ncols A = n" "nrows w = r" "ncols w = 1"
    using assms(1,2) by (simp_all add: has_shape_nrows has_shape_ncols)
  have v: "has_shape v n 1"
    by (simp add: assms(3) dims)
  have vd: "nrows v = n" "ncols v = 1"
    using v by (simp_all add: has_shape_nrows has_shape_ncols)
  have b: "has_shape b r 1"
    using assms(4)[symmetric] by (simp add: dims vd)
  have res: "sq_residual A b v = 0"
    using b v by (simp add: sq_residual_zero_iff dims has_shape_ncols assms(4))
  have ventry: "entry v i 0 = (\<Sum>q<r. entry A q i * entry w q 0)" if "i < n" for i
  proof -
    have "entry v i 0 = (\<Sum>q<r. entry (transpose_t A) i q * entry w q 0)"
      using that unfolding assms(3) by (subst entry_mm_raw_column) (simp_all add: dims)
    also have "\<dots> = (\<Sum>q<r. entry A q i * entry w q 0)"
      using that by (intro sum.cong) (simp_all add: dims)
    finally show ?thesis .
  qed
  have "sq_norm v \<le> sq_norm x" if x: "has_shape x n 1" and rx: "sq_residual A b x = sq_residual A b v" for x
  proof -
    have xd: "nrows x = n" "ncols x = 1"
      using x by (simp_all add: has_shape_nrows has_shape_ncols)
    have Ax: "mm_raw A x = mm_raw A v"
      using rx res b by (simp add: sq_residual_zero_iff dims xd assms(4))
    define d where "d i = entry x i 0 - entry v i 0" for i
    have Ad: "(\<Sum>i<n. entry A q i * d i) = 0" if "q < r" for q
    proof -
      have "(\<Sum>i<n. entry A q i * d i)
          = (\<Sum>i<n. entry A q i * entry x i 0) - (\<Sum>i<n. entry A q i * entry v i 0)"
        by (simp add: d_def right_diff_distrib sum_subtractf)
      also have "\<dots> = entry (mm_raw A x) q 0 - entry (mm_raw A v) q 0"
        using that by (simp add: entry_mm_raw_column dims xd vd)
      finally show ?thesis
        by (simp add: Ax)
    qed
    have "(\<Sum>i<n. entry v i 0 * d i) = (\<Sum>i<n. \<Sum>q<r. entry w q 0 * (entry A q i * d i))"
      by (intro sum.cong) (simp_all add: ventry sum_distrib_right sum_distrib_left mult_ac)
    also have "\<dots> = (\<Sum>q<r. \<Sum>i<n. entry w q 0 * (entry A q i * d i))"
      by (rule sum.swap)
    also have "\<dots> = (\<Sum>q<r. entry w q 0 * (\<Sum>i<n. entry A q i * d i))"
      by (simp add: sum_distrib_left)
    also have "\<dots> = 0"
      by (simp add: Ad)
    finally have orth: "(\<Sum>i<n. entry v i 0 * d i) = 0" .
    have "sq_norm x = (\<Sum>i<n. (entry v i 0)\<^sup>2 + 2 * (entry v i 0 * d i) + (d i)\<^sup>2)"
      unfolding sq_norm_sum xd by (intro sum.cong) (simp_all add: d_def power2_eq_square algebra_simps)
    also have "\<dots> = sq_norm v + 2 * (\<Sum>i<n. entry v i 0 * d i) + (\<Sum>i<n. (d i)\<^sup>2)"
      by (simp add: sq_norm_sum vd sum.distrib sum_distrib_left)
    finally have "sq_norm x = sq_norm v + (\<Sum>i<n. (d i)\<^sup>2)"
      by (simp add: orth)
    moreover have "0 \<le> (\<Sum>i<n. (d i)\<^sup>2)"
      by (simp add: sum_nonneg)
    ultimately show ?thesis
      by simp
  qed
  then show ?thesis
    using v res by (simp add: is_lstsq_def is_least_squares_def dims sq_residual_nonneg)
qed

lemma init_eq:
  "compute_constraint_projector svd lstsq n mean = Inr proj \<Longrightarrow>
   init svd lstsq n mean =
     Inr \<lparr>num_faces = n, mean_constraint = mean, constraint_projector = proj,
          p = ones n, grad = None\<rparr>"
  by (simp add: init_def)

lemma svd_projector_facts:
  assumes "is_svd A U S VT" "K = slice_cols (length S) (transpose_t VT)" "P = mm_raw K (transpose_t K)"
  shows "has_shape P (ncols A) (ncols A)" "transpose_t P = P" "mm_raw P P = P"
    "mm_raw A P = zeros (nrows A) (ncols A)"
proof -
  have VT: "has_shape VT (ncols A) (ncols A)"
    and o: "mm_raw VT (transpose_t VT) = eye (ncols A)"
    using assms(1) by (auto simp: is_svd_def orthogonal_def dest: has_shape_nrows)
  have K: "has_shape K (ncols A) (ncols A - length S)"
    unfolding assms(2) using VT by (rule has_shape_kernel_basis)
  show "has_shape P (ncols A) (ncols A)"
    using VT assms(2) unfolding assms(3) by (rule kernel_projector_shape)
  show "transpose_t P = P"
    unfolding assms(3) by (rule kernel_projector_symmetric)
  have "mm_raw (transpose_t K) K = eye (ncols A - length S)"
    unfolding assms(2) using VT o by (rule kernel_basis_orthonormal)
  with K show "mm_raw P P = P"
    unfolding assms(3) by (rule kernel_projector_idempotent)
  show "mm_raw A P = zeros (nrows A) (ncols A)"
    unfolding assms(3) using assms(1,2) by (rule svd_kernel_projector)
qed

text \<open>
  Claim C4. Let \<open>K\<close> be the columns of \<open>V\<close> from index \<open>len(S)\<close> on and \<open>P = K K\<^sup>T\<close>, as
  \<^verbatim>\<open>_compute_constraint_projector\<close> builds them from a singular value decomposition of the
  constraint matrix. Then \<open>P\<close> is the matrix the closure captures, it is \<open>n \<times> n\<close>, symmetric
  and idempotent, \<open>A P\<close> is the zero matrix, and after any number of passes of the loop the
  module still holds the closure over this \<open>P\<close>.
\<close>

theorem kernel_projector_invariant:
  assumes "constraint_A n = Inr A" "svd A = Inr (U, S, VT)" "is_svd A U S VT"
    and "lstsq A (constraint_b mean) = Inr v"
    and "K = slice_cols (length S) (transpose_t VT)" "P = mm_raw K (transpose_t K)"
  shows "projector_captures svd lstsq n mean = Inr (P, v) \<and>
         has_shape P n n \<and> transpose_t P = P \<and> mm P P = Inr P \<and> mm A P = Inr (zeros 2 n) \<and>
         (\<forall>m0 lr k m. init svd lstsq n mean = Inr m0 \<longrightarrow> optimize lr k m0 = Inr m \<longrightarrow>
              constraint_projector m = project P v)"
proof -
  have A: "nrows A = 2" "ncols A = n"
    using constraint_A_shape[OF assms(1)] by (simp_all add: has_shape_nrows has_shape_ncols)
  note f = svd_projector_facts[OF assms(3,5,6), unfolded A]
  have dims: "nrows P = n" "ncols P = n"
    using f(1) by (simp_all add: has_shape_nrows has_shape_ncols)
  have c: "projector_captures svd lstsq n mean = Inr (P, v)"
    unfolding assms(6) using assms(1,2,4,5) by (rule projector_captures_eq)
  have "constraint_projector m = project P v"
    if "init svd lstsq n mean = Inr m0" "optimize lr k m0 = Inr m" for m0 lr k m
  proof -
    have "constraint_projector m0 = project P v"
      using that(1) c by (auto simp: init_def compute_constraint_projector_def)
    then show ?thesis
      using optimize_frame[OF that(2)] by simp
  qed
  then have loop: "\<forall>m0 lr k m. init svd lstsq n mean = Inr m0 \<longrightarrow> optimize lr k m0 = Inr m \<longrightarrow>
      constraint_projector m = project P v"
    by blast
  have PP: "mm P P = Inr P"
    using f(3) by (simp add: mm_conform dims)
  have AP: "mm A P = Inr (zeros 2 n)"
    using f(4) by (simp add: mm_conform dims A)
  show ?thesis
    using c f(1,2) PP AP loop by (intro conjI)
qed

lemma project_constraints:
  assumes "has_shape A r n" "has_shape P n n" "has_shape v n 1" "has_shape x n 1"
    and "mm_raw A P = zeros r n" "mm_raw A v = b" "has_shape b r 1"
  shows "mm_raw A (add_raw v (mm_raw P (sub_raw x v))) = b"
proof -
  have dims: "nrows A = r" "ncols A = n" "nrows P = n" "ncols P = n" "nrows v = n" "ncols v = 1"
      "nrows x = n" "ncols x = 1" "nrows b = r" "ncols b = 1"
    using assms by (simp_all add: has_shape_nrows has_shape_ncols)
  have "mm_raw A (add_raw v (mm_raw P (sub_raw x v)))
      = add_raw (mm_raw A v) (mm_raw A (mm_raw P (sub_raw x v)))"
    by (rule mm_raw_add_raw) (simp_all add: dims)
  also have "mm_raw A (mm_raw P (sub_raw x v)) = mm_raw (mm_raw A P) (sub_raw x v)"
    by (rule mm_raw_assoc[symmetric]) (simp add: dims)
  also have "\<dots> = zeros r 1"
    by (simp add: assms(5) mm_raw_zeros_left dims)
  also have "add_raw (mm_raw A v) (zeros r 1) = b"
    unfolding assms(6) using assms(7) by (rule add_raw_zeros)
  finally show ?thesis .
qed

text \<open>
  Claim C1. When the constraint matrix has full row rank, the projector that
  \<^verbatim>\<open>_compute_constraint_projector\<close> returns maps every column \<open>x\<close> of length \<open>n\<close> to a
  column \<open>y\<close> with \<open>A y = b\<close>.
\<close>

theorem project_restores_constraints:
  assumes "constraint_A n = Inr A" "full_row_rank A"
    and "svd A = Inr (U, S, VT)" "is_svd A U S VT"
    and "lstsq A (constraint_b mean) = Inr v" "is_least_squares A (constraint_b mean) v"
    and "has_shape x n 1"
  shows "\<exists>proj y. compute_constraint_projector svd lstsq n mean = Inr proj \<and>
           proj x = Inr y \<and> has_shape y n 1 \<and> mm A y = Inr (constraint_b mean)"
proof -
  define K where "K = slice_cols (length S) (transpose_t VT)"
  define P where "P = mm_raw K (transpose_t K)"
  have A: "has_shape A 2 n"
    using assms(1) by (rule constraint_A_shape)
  then have dims: "nrows A = 2" "ncols A = n"
    by (simp_all add: has_shape_nrows has_shape_ncols)
  note f = svd_projector_facts[OF assms(4) K_def P_def, unfolded dims]
  have v: "has_shape v n 1"
    using assms(6) by (simp add: is_least_squares_def dims)
  have "2 \<le> n"
    using assms(1,2) by (simp add: constraint_A_full_row_rank)
  then have "consistent A (constraint_b mean)"
    using assms(1) by (simp add: constraint_system_consistent)
  then have Av: "mm_raw A v = constraint_b mean"
    using assms(6) by (intro lstsq_solves) (simp_all add: dims)
  let ?y = "add_raw v (mm_raw P (sub_raw x v))"
  have 1: "compute_constraint_projector svd lstsq n mean = Inr (project P v)"
    unfolding P_def using assms(1,3,5) K_def by (rule compute_constraint_projector_eq)
  have 2: "project P v x = Inr ?y"
    using f(1) v assms(7) by (rule project_eq)
  have 3: "has_shape ?y n 1"
    using v by (simp add: has_shape_nrows has_shape_ncols)
  have "mm_raw A ?y = constraint_b mean"
    using A f(1) v assms(7) f(4) Av by (rule project_constraints) simp
  then have 4: "mm A ?y = Inr (constraint_b mean)"
    using v by (simp add: mm_conform dims has_shape_nrows)
  show ?thesis
    using 1 2 3 4 by blast
qed

lemma project_idempotent_raw:
  assumes "has_shape P n n" "has_shape v n 1" "has_shape x n 1" "mm_raw P P = P"
    and "y = add_raw v (mm_raw P (sub_raw x v))"
  shows "add_raw v (mm_raw P (sub_raw y v)) = y"
proof -
  have dims: "nrows P = n" "ncols P = n" "nrows v = n" "ncols v = 1" "nrows x = n" "ncols x = 1"
    using assms by (simp_all add: has_shape_nrows has_shape_ncols)
  have "sub_raw y v = mm_raw P (sub_raw x v)"
    unfolding assms(5) using assms(2) by (rule sub_raw_add_raw) (simp add: dims)
  then have "mm_raw P (sub_raw y v) = mm_raw (mm_raw P P) (sub_raw x v)"
    by (simp add: mm_raw_assoc dims)
  then show ?thesis
    by (simp add: assms(4,5))
qed

text \<open>
  Claim C3. When the constraint matrix has full row rank, projecting twice is projecting
  once: the projector returns \<open>y\<close> on \<open>x\<close> and returns \<open>y\<close> again on \<open>y\<close>.
\<close>

theorem project_idempotent:
  assumes "constraint_A n = Inr A" "full_row_rank A"
    and "svd A = Inr (U, S, VT)" "is_svd A U S VT"
    and "lstsq A (constraint_b mean) = Inr v" "is_least_squares A (constraint_b mean) v"
    and "has_shape x n 1"
  shows "\<exists>proj y. compute_constraint_projector svd lstsq n mean = Inr proj \<and>
           proj x = Inr y \<and> proj y = Inr y"
proof -
  define K where "K = slice_cols (length S) (transpose_t VT)"
  define P where "P = mm_raw K (transpose_t K)"
  have dims: "nrows A = 2" "ncols A = n"
    using constraint_A_shape[OF assms(1)] by (simp_all add: has_shape_nrows has_shape_ncols)
  note f = svd_projector_facts[OF assms(4) K_def P_def, unfolded dims]
  have v: "has_shape v n 1"
    using assms(6) by (simp add: is_least_squares_def dims)
  define y where "y = add_raw v (mm_raw P (sub_raw x v))"
  have 1: "compute_constraint_projector svd lstsq n mean = Inr (project P v)"
    unfolding P_def using assms(1,3,5) K_def by (rule compute_constraint_projector_eq)
  have 2: "project P v x = Inr y"
    unfolding y_def using f(1) v assms(7) by (rule project_eq)
  have y: "has_shape y n 1"
    using v by (simp add: y_def has_shape_nrows has_shape_ncols)
  have "project P v y = Inr (add_raw v (mm_raw P (sub_raw y v)))"
    using f(1) v y by (rule project_eq)
  also have "add_raw v (mm_raw P (sub_raw y v)) = y"
    using f(1) v assms(7) f(3) y_def by (rule project_idempotent_raw)
  finally have 3: "project P v y = Inr y" .
  show ?thesis
    using 1 2 3 by blast
qed

lemma backward_entropy_product:
  "map2 (+) (map2 (*) (replicate (length ps) c) (map ln ps))
            (map2 (/) (map2 (*) (replicate (length ps) c) ps) ps)
   = map (\<lambda>x. c * ln x + c * x / x) ps"
  by (induction ps) simp_all

lemma backward_loss_graph:
  "backward ps loss_graph [1] = map (\<lambda>x. 1 * ln x + 1 * x / x) ps"
  using backward_entropy_product[of ps 1]
  by (simp add: loss_graph_def entropy_graph_def)

lemma finite_loss_graph: "finite_value ps loss_graph \<longleftrightarrow> list_all (\<lambda>x. 0 < x) ps"
  by (simp add: loss_graph_def entropy_graph_def)

lemma backward_loss_graph_pos:
  assumes "list_all (\<lambda>x. 0 < x) ps"
  shows "backward ps loss_graph [1] = map (\<lambda>x. ln x + 1) ps"
proof -
  have "map (\<lambda>x. 1 * ln x + 1 * x / x) ps = map (\<lambda>x. ln x + 1) ps"
    using assms by (intro map_cong) (auto simp: list_all_iff)
  then show ?thesis
    by (simp only: backward_loss_graph)
qed

lemma map2_update: "map2 (\<lambda>x d. x - lr * d) ps (map f ps) = map (\<lambda>x. x - lr * f x) ps"
  by (induction ps) simp_all

lemma loss_backward_then_step:
  assumes "list_all (\<lambda>x. 0 < x) (p m)"
  shows "\<exists>m1. loss_backward (zero_grad m) = Inr m1 \<and>
           grad m1 = Some (map (\<lambda>x. ln x + 1) (p m)) \<and>
           p (optimizer_step \<eta> m1) = closed_form_update \<eta> (p m)"
proof -
  let ?g = "map (\<lambda>x. ln x + 1) (p m)"
  let ?m1 = "(zero_grad m)\<lparr>grad := Some ?g\<rparr>"
  have 1: "loss_backward (zero_grad m) = Inr ?m1"
    using assms
    by (simp add: loss_backward_def finite_loss_graph backward_loss_graph_pos zero_grad_def)
  have 2: "p (optimizer_step \<eta> ?m1) = closed_form_update \<eta> (p m)"
    by (simp add: optimizer_step_def closed_form_update_def zero_grad_def map2_update)
  show ?thesis
    using 1 2 by (intro exI[where x = ?m1]) simp
qed

text \<open>The loss as a function of one entry of \<open>p\<close>, and its derivative.\<close>

lemma loss_value: "node_value ps loss_graph = [\<Sum>x\<leftarrow>ps. x * ln x]"
proof -
  have "map2 (*) ps (map ln ps) = map (\<lambda>x. x * ln x) ps"
    by (induction ps) simp_all
  then show ?thesis
    by (simp add: loss_graph_def entropy_graph_def)
qed

lemma sum_list_map_update:
  "i < length ps \<Longrightarrow> (\<Sum>x\<leftarrow>ps[i := t]. g x) = (\<Sum>x\<leftarrow>ps. g x) - g (ps ! i) + (g t :: real)"
proof (induction ps arbitrary: i)
  case Nil
  then show ?case by simp
next
  case (Cons a ps)
  then show ?case by (cases i) simp_all
qed

lemma loss_partial_derivative:
  assumes "i < length ps" "0 < ps ! i"
  shows "((\<lambda>t. hd (node_value (ps[i := t]) loss_graph)) has_real_derivative ln (ps ! i) + 1)
           (at (ps ! i))"
proof -
  define c where "c = (\<Sum>x\<leftarrow>ps. x * ln x) - ps ! i * ln (ps ! i)"
  have "(\<lambda>t. hd (node_value (ps[i := t]) loss_graph)) = (\<lambda>t. c + t * ln t)"
    by (rule ext) (simp add: loss_value sum_list_map_update[OF assms(1)] c_def)
  moreover have "((\<lambda>t. c + t * ln t) has_real_derivative ln (ps ! i) + 1) (at (ps ! i))"
    using assms(2) by (auto intro!: derivative_eq_intros)
  ultimately show ?thesis
    by simp
qed

text \<open>
  Claim C5. For a module whose probabilities are all positive, clearing the gradient, running
  reverse-mode differentiation on the loss \<open>\<Sum> p\<^sub>i log p\<^sub>i\<close> and taking one SGD step with learning
  rate \<open>\<eta>\<close> leaves the gradient \<open>log p\<^sub>i + 1\<close> and the parameter
  \<open>p\<^sub>i - \<eta> (log p\<^sub>i + 1)\<close>, the closed-form update. This holds for every \<open>\<eta>\<close>, in
  particular for the notebook's \<open>1/1000\<close>. The gradient that the differentiation of the graph
  returns is the derivative of the loss in each entry of \<open>p\<close>.
\<close>

theorem sgd_step_closed_form:
  assumes "list_all (\<lambda>x. 0 < x) (p m)"
  shows "\<exists>m1. loss_backward (zero_grad m) = Inr m1 \<and>
           grad m1 = Some (map (\<lambda>x. ln x + 1) (p m)) \<and>
           p (optimizer_step \<eta> m1) = closed_form_update \<eta> (p m) \<and>
           (\<forall>i<length (p m).
              ((\<lambda>t. hd (node_value ((p m)[i := t]) loss_graph))
                 has_real_derivative map (\<lambda>x. ln x + 1) (p m) ! i) (at (p m ! i)))"
proof -
  have "((\<lambda>t. hd (node_value ((p m)[i := t]) loss_graph))
           has_real_derivative map (\<lambda>x. ln x + 1) (p m) ! i) (at (p m ! i))"
    if "i < length (p m)" for i
    using loss_partial_derivative[OF that] assms that by (simp add: list_all_length)
  then show ?thesis
    using loss_backward_then_step[OF assms, of \<eta>] by blast
qed

text \<open>
  Claim C10. A call of \<^verbatim>\<open>enforce_constraint\<close> that returns changes only \<open>p\<close>, and keeps its
  length: the number of faces, the mean constraint, the projector closure (with the tensors
  \<open>P\<close> and \<open>v\<close> it captured) and the gradient are as before. A whole pass of the loop,
  which evaluates \<^verbatim>\<open>forward\<close>, differentiates, steps and projects, keeps the same three
  fields and the length of \<open>p\<close>. (\<^const>\<open>forward\<close> itself returns the entropy and no module.)
\<close>

theorem enforce_constraint_frame_all:
  "(enforce_constraint m = Inr m' \<longrightarrow>
      num_faces m' = num_faces m \<and> mean_constraint m' = mean_constraint m \<and>
      constraint_projector m' = constraint_projector m \<and> grad m' = grad m \<and>
      length (p m') = length (p m)) \<and>
   (iteration lr m = Inr m'' \<longrightarrow>
      num_faces m'' = num_faces m \<and> mean_constraint m'' = mean_constraint m \<and>
      constraint_projector m'' = constraint_projector m \<and> length (p m'') = length (p m))"
proof (intro conjI impI)
  assume e: "enforce_constraint m = Inr m'"
  have 1: "m' = m\<lparr>p := p m'\<rparr>" and 2: "length (p m') = length (p m)"
    using enforce_constraint_frame[OF e] by simp_all
  show "num_faces m' = num_faces m" by (subst 1) simp
  show "mean_constraint m' = mean_constraint m" by (subst 1) simp
  show "constraint_projector m' = constraint_projector m" by (subst 1) simp
  show "grad m' = grad m" by (subst 1) simp
  show "length (p m') = length (p m)" by (rule 2)
next
  assume i: "iteration lr m = Inr m''"
  show "num_faces m'' = num_faces m" "mean_constraint m'' = mean_constraint m"
    "constraint_projector m'' = constraint_projector m" "length (p m'') = length (p m)"
    using iteration_frame[OF i] by simp_all
qed

lemma upt2: "[0..<2] = [0, Suc 0]"
  by (simp add: upt_rec)

lemma project_w: "project (zeros 2 2) vw (reshape_column [a, b]) = Inr vw"
  by (simp add: project_def tsub_def tadd_def elementwise_def broadcastable_def nrows_def
      reshape_column_def bdim_def bidx_def tabulate_def entry_def mm_def mm_raw_def zeros_def upt2
      vw_def)

lemma enforce_w:
  "enforce_constraint (mw\<lparr>p := [a, b], grad := g\<rparr>) = Inr (mw\<lparr>p := [1/2, 1/2], grad := g\<rparr>)"
  by (simp add: enforce_constraint_def mw_def project_w copy_into_def flatten_def)
     (simp add: vw_def)

theorem sgd_step_closed_form_witness:
  "list_all (\<lambda>x. 0 < x) (p mw) \<and>
   (\<exists>m1. loss_backward (zero_grad mw) = Inr m1 \<and> grad m1 = Some [1, 1] \<and>
         p (optimizer_step (1/1000) m1) = [999/1000, 999/1000])"
  using sgd_step_closed_form[of mw "1/1000"]
  by (auto simp add: mw_def closed_form_update_def)

theorem enforce_constraint_frame_all_witness:
  "enforce_constraint mw = Inr (mw\<lparr>p := [1/2, 1/2]\<rparr>) \<and>
   iteration (1/1000) mw = Inr (mw\<lparr>p := [1/2, 1/2], grad := Some [1, 1]\<rparr>) \<and>
   num_faces (mw\<lparr>p := [1/2, 1/2]\<rparr>) = num_faces mw \<and>
   constraint_projector (mw\<lparr>p := [1/2, 1/2], grad := Some [1, 1]\<rparr>) = constraint_projector mw \<and>
   length (p (mw\<lparr>p := [1/2, 1/2]\<rparr>)) = length (p mw)"
proof -
  have e: "enforce_constraint mw = Inr (mw\<lparr>p := [1/2, 1/2]\<rparr>)"
    using enforce_w[where a = 1 and b = 1 and g = None] by (simp add: mw_def)
  have b: "loss_backward (zero_grad mw) = Inr (mw\<lparr>grad := Some [1, 1]\<rparr>)"
    by (simp add: loss_backward_def zero_grad_def mw_def finite_loss_graph backward_loss_graph_pos)
  have "optimizer_step (1/1000) (mw\<lparr>grad := Some [1, 1]\<rparr>)
      = mw\<lparr>p := [999/1000, 999/1000], grad := Some [1, 1]\<rparr>"
    by (simp add: optimizer_step_def mw_def)
  then have i: "iteration (1/1000) mw = Inr (mw\<lparr>p := [1/2, 1/2], grad := Some [1, 1]\<rparr>)"
    using enforce_w[where a = "999/1000" and b = "999/1000" and g = "Some [1, 1]"] by (simp add: iteration_def b)
  show ?thesis
    using enforce_constraint_frame_all[of mw "mw\<lparr>p := [1/2, 1/2]\<rparr>" "1/1000"
        "mw\<lparr>p := [1/2, 1/2], grad := Some [1, 1]\<rparr>"] e i
    by simp
qed

section \<open>Two faces\<close>

lemma constraint_A_2: "constraint_A 2 = Inr A2"
  by (simp add: constraint_A_def stack_def ones_def arange1_def A2_def eval_nat_numeral upt_rec)

lemma has_shape_reshape_column [simp]: "has_shape (reshape_column xs) r c \<longleftrightarrow> r = length xs \<and> c = 1"
  by (auto simp: has_shape_def reshape_column_def nrows_def list_all_iff)

lemma empty_kernel_projector:
  "ncols K = 0 \<Longrightarrow> mm_raw K (transpose_t K) = zeros (nrows K) (nrows K)"
  by (rule tensor_eqI[where r = "nrows K" and c = "nrows K"]) (simp_all add: entry_mm_raw)

lemma project_zeros:
  assumes "has_shape v n 1" "has_shape x n 1"
  shows "project (zeros n n) v x = Inr v"

proof -
  have d: "nrows x = n" "ncols x = 1"
    using assms(2) by (simp_all add: has_shape_nrows has_shape_ncols)
  have "project (zeros n n) v x = Inr (add_raw v (mm_raw (zeros n n) (sub_raw x v)))"
    using _ assms by (rule project_eq) simp
  also have "mm_raw (zeros n n) (sub_raw x v) = zeros n 1"
    by (simp add: mm_raw_zeros_left d)
  also have "add_raw v (zeros n 1) = v"
    using assms(1) by (rule add_raw_zeros)
  finally show ?thesis .

qed

lemma vw_is_lstsq: "is_lstsq A2 (constraint_b (3/2)) vw"

proof (rule is_lstsq_row_spaceI[where r = 2 and n = 2 and w = "Tensor2 1 [[1/2], [0]]"])
  show "has_shape A2 2 2" "has_shape (Tensor2 1 [[1/2], [0]]) 2 1"
    by (simp_all add: has_shape_def nrows_def A2_def)
  show "vw = mm_raw (transpose_t A2) (Tensor2 1 [[1/2], [0]])"
    by (simp add: vw_def A2_def mm_raw_def transpose_t_def tabulate_def entry_def nrows_def upt2)
  show "mm_raw A2 vw = constraint_b (3/2)"
    by (simp add: vw_def A2_def mm_raw_def tabulate_def entry_def nrows_def upt2 constraint_b_def)

qed

lemma iteration_constant_projector:
  assumes "constraint_projector m = project (zeros 2 2) vw"
    and "list_all (\<lambda>x. 0 < x) (p m)" "length (p m) = 2"
  shows "\<exists>m'. iteration lr m = Inr m' \<and> p m' = [1/2, 1/2] \<and>
           constraint_projector m' = project (zeros 2 2) vw"

proof -
  obtain m1 where m1: "loss_backward (zero_grad m) = Inr m1"
    and q: "p (optimizer_step lr m1) = closed_form_update lr (p m)"
    using loss_backward_then_step[OF assms(2), of lr] by blast
  let ?m2 = "optimizer_step lr m1"
  have f1: "m1 = (zero_grad m)\<lparr>grad := grad m1\<rparr>"
    using m1 by (rule loss_backward_frame)
  have "constraint_projector m1 = constraint_projector m"
    by (subst f1) (simp add: zero_grad_def)
  moreover have "constraint_projector ?m2 = constraint_projector m1"
    by (subst optimizer_step_frame) simp
  ultimately have cp: "constraint_projector ?m2 = project (zeros 2 2) vw"
    using assms(1) by simp
  have len: "length (p ?m2) = 2"
    by (simp add: q closed_form_update_def assms(3))
  have vw: "has_shape vw 2 1"
    by (simp add: vw_def has_shape_def nrows_def)
  have pr: "constraint_projector ?m2 (reshape_column (p ?m2)) = Inr vw"
    unfolding cp using vw by (rule project_zeros) (simp add: len)
  have "copy_into (p ?m2) (flatten vw) = Inr [1/2, 1/2]"
    by (simp add: copy_into_def len flatten_def vw_def)
  then have e: "enforce_constraint ?m2 = Inr (?m2\<lparr>p := [1/2, 1/2]\<rparr>)"
    by (simp add: enforce_constraint_def pr)
  have "iteration lr m = Inr (?m2\<lparr>p := [1/2, 1/2]\<rparr>)"
    by (simp add: iteration_def m1 e)
  then show ?thesis
    using cp by simp

qed

lemma optimize_constant_projector:
  assumes "constraint_projector m = project (zeros 2 2) vw"
    and "list_all (\<lambda>x. 0 < x) (p m)" "length (p m) = 2"
  shows "\<exists>m'. optimize lr (Suc k) m = Inr m' \<and> p m' = [1/2, 1/2]"
  using assms

proof (induction k arbitrary: m)
  case 0
  then show ?case
    using iteration_constant_projector[of m lr] by auto

next
  case (Suc k)
  obtain m1 where 1: "iteration lr m = Inr m1" "p m1 = [1/2, 1/2]"
      "constraint_projector m1 = project (zeros 2 2) vw"
    using iteration_constant_projector[OF Suc.prems, of lr] by blast
  have "\<exists>m'. optimize lr (Suc k) m1 = Inr m' \<and> p m' = [1/2, 1/2]"
    using 1 by (intro Suc.IH) simp_all
  then show ?case
    using 1(1) by simp

qed

text \<open>
  Claim C8. For two faces and target mean \<open>3/2\<close> the kernel basis has no column, the
  captured \<open>P\<close> is the \<open>2 \<times> 2\<close> zero matrix, the least-squares solution is \<open>(1/2, 1/2)\<close>, and
  the projector returns it on every column of length \<open>2\<close>. Construction succeeds, and after
  every pass of the loop, for every learning rate, the probability vector is \<open>(1/2, 1/2)\<close>:
  from the first pass on the loop does not change it.
\<close>

theorem two_faces_projector_constant:
  assumes "constraint_A 2 = Inr A" "svd A = Inr (U, S, VT)" "is_svd A U S VT"
    and "lstsq A (constraint_b (3/2)) = Inr v" "is_least_squares A (constraint_b (3/2)) v"
  shows "has_shape (slice_cols (length S) (transpose_t VT)) 2 0 \<and>
         projector_captures svd lstsq 2 (3/2) = Inr (zeros 2 2, v) \<and>
         v = Tensor2 1 [[1/2], [1/2]] \<and>
         (\<forall>x. has_shape x 2 1 \<longrightarrow> project (zeros 2 2) v x = Inr v) \<and>
         (\<exists>m0. init svd lstsq 2 (3/2) = Inr m0 \<and>
            (\<forall>lr k. \<exists>m. optimize lr (Suc k) m0 = Inr m \<and> p m = [1/2, 1/2]))"

proof -
  define K where "K = slice_cols (length S) (transpose_t VT)"
  have A: "A = A2"
    using assms(1) by (simp add: constraint_A_2)
  have dims: "nrows A = 2" "ncols A = 2"
    using constraint_A_shape[OF assms(1)] by (simp_all add: has_shape_nrows has_shape_ncols)
  have S: "length S = 2" and VT: "has_shape VT 2 2"
    using assms(3) by (simp_all add: is_svd_def dims)
  have K: "has_shape K 2 0"
    using has_shape_kernel_basis[OF VT, of "length S"] by (simp add: K_def S)
  then have P: "mm_raw K (transpose_t K) = zeros 2 2"
    using empty_kernel_projector[of K] by (simp add: has_shape_nrows has_shape_ncols)
  have "projector_captures svd lstsq 2 (3/2) = Inr (mm_raw K (transpose_t K), v)"
    using assms(1,2,4) K_def by (rule projector_captures_eq)
  then have c: "projector_captures svd lstsq 2 (3/2) = Inr (zeros 2 2, v)"
    by (simp add: P)
  have vs: "has_shape v 2 1"
    using assms(5) by (simp add: is_least_squares_def dims)
  have "consistent A (constraint_b (3/2))"
    using assms(1) by (rule constraint_system_consistent) simp
  then have Av: "mm_raw A v = constraint_b (3/2)"
    using assms(5) by (intro lstsq_solves) (simp_all add: dims)
  have row: "entry A i 0 * entry v 0 0 + entry A i (Suc 0) * entry v (Suc 0) 0
      = entry (constraint_b (3/2)) i 0" if "i < 2" for i
  proof -
    have "entry (mm_raw A v) i 0 = (\<Sum>k<2. entry A i k * entry v k 0)"
      using that vs by (simp add: entry_mm_raw_column dims has_shape_ncols)
    then show ?thesis
      by (simp add: Av sum_two)
  qed
  have A2_entries: "entry A2 0 0 = 1" "entry A2 0 (Suc 0) = 1" "entry A2 (Suc 0) 0 = 1"
      "entry A2 (Suc 0) (Suc 0) = 2"
    by (simp_all add: A2_def entry_def)
  have "entry v 0 0 + entry v (Suc 0) 0 = 1" "entry v 0 0 + 2 * entry v (Suc 0) 0 = 3/2"
    using row[of 0] row[of 1] unfolding A by (simp_all add: A2_entries)
  then have e: "entry v 0 0 = 1/2" "entry v (Suc 0) 0 = 1/2"
    by simp_all
  have v: "v = vw"
  proof (rule tensor_eqI[where r = 2 and c = 1])
    show "has_shape v 2 1" by fact
    show "has_shape vw 2 1" by (simp add: vw_def has_shape_def nrows_def)
    fix i j :: nat assume "i < 2" "j < 1"
    then have "i = 0 \<or> i = Suc 0" "j = 0" by auto
    then show "entry v i j = entry vw i j"
      using e by (auto simp: vw_def entry_def)
  qed
  have pr: "\<forall>x. has_shape x 2 1 \<longrightarrow> project (zeros 2 2) v x = Inr v"
    using vs by (simp add: project_zeros)
  let ?m0 = "\<lparr>num_faces = 2, mean_constraint = 3/2, constraint_projector = project (zeros 2 2) v,
      p = ones 2, grad = None\<rparr>"
  have i: "init svd lstsq 2 (3/2) = Inr ?m0"
    by (simp add: init_def compute_constraint_projector_def c)
  have "\<exists>m. optimize lr (Suc k) ?m0 = Inr m \<and> p m = [1/2, 1/2]" for lr k
    by (rule optimize_constant_projector) (simp_all add: v ones_def eval_nat_numeral)
  then show ?thesis
    using K c v pr i unfolding K_def vw_def by blast

qed

section \<open>Six faces\<close>

lemma upt6: "[0..<6] = [0, 1, 2, 3, 4, 5]"
  by (simp add: upt_rec eval_nat_numeral)

lemma constraint_A_6: "constraint_A 6 = Inr A6"
  by (simp add: constraint_A_def stack_def ones_def arange1_def A6_def eval_nat_numeral upt_rec)

lemma v6_is_lstsq: "is_lstsq A6 (constraint_b (9/2)) v6"

proof (rule is_lstsq_row_spaceI[where r = 2 and n = 6 and w = "Tensor2 1 [[-1/30], [2/35]]"])
  show "has_shape A6 2 6" "has_shape (Tensor2 1 [[-1/30], [2/35]]) 2 1"
    by (simp_all add: has_shape_def nrows_def A6_def)
  show "v6 = mm_raw (transpose_t A6) (Tensor2 1 [[-1/30], [2/35]])"
    by (simp add: v6_def A6_def mm_raw_def transpose_t_def tabulate_def entry_def nrows_def upt2 upt6)
  show "mm_raw A6 v6 = constraint_b (9/2)"
    by (simp add: v6_def A6_def mm_raw_def tabulate_def entry_def nrows_def upt2 upt6 constraint_b_def)

qed

lemma project_fixed_point:
  assumes "has_shape P n n" "has_shape v n 1"
  shows "project P v v = Inr v"

proof -
  have d: "nrows v = n" "ncols v = 1" "ncols P = n" "nrows P = n"
    using assms by (simp_all add: has_shape_nrows has_shape_ncols)
  have "project P v v = Inr (add_raw v (mm_raw P (sub_raw v v)))"
    using assms assms(2) by (rule project_eq)
  also have "mm_raw P (sub_raw v v) = zeros n 1"
    by (simp add: sub_raw_self mm_raw_zeros_right d)
  also have "add_raw v (zeros n 1) = v"
    using assms(2) by (rule add_raw_zeros)
  finally show ?thesis .

qed

text \<open>
  Claim C7. For six faces and target mean \<open>9/2\<close> the least-squares solution is
  \<open>(5, 17, 29, 41, 53, 65)/210\<close>, which agrees with
  \<open>(0.0238, 0.0810, 0.1381, 0.1952, 0.2524, 0.3095)\<close> to four decimal places, and the
  projector maps it to itself.
\<close>

theorem particular_solution_six_faces:
  assumes "constraint_A 6 = Inr A" "svd A = Inr (U, S, VT)" "is_svd A U S VT"
    and "lstsq A (constraint_b (9/2)) = Inr v" "is_lstsq A (constraint_b (9/2)) v"
  shows "v = Tensor2 1 [[5/210], [17/210], [29/210], [41/210], [53/210], [65/210]] \<and>
         list_all2 (\<lambda>x d. \<bar>x - d\<bar> \<le> 5/100000) (flatten v)
           [238/10000, 810/10000, 1381/10000, 1952/10000, 2524/10000, 3095/10000] \<and>
         (\<exists>proj. compute_constraint_projector svd lstsq 6 (9/2) = Inr proj \<and> proj v = Inr v)"

proof -
  define K where "K = slice_cols (length S) (transpose_t VT)"
  define P where "P = mm_raw K (transpose_t K)"
  have A: "A = A6"
    using assms(1) by (simp add: constraint_A_6)
  have dims: "nrows A = 2" "ncols A = 6"
    using constraint_A_shape[OF assms(1)] by (simp_all add: has_shape_nrows has_shape_ncols)
  have v: "v = v6"
    using assms(5) v6_is_lstsq unfolding A by (rule lstsq_unique)
  have vs: "has_shape v 6 1"
    using assms(5) by (simp add: is_lstsq_def is_least_squares_def dims)
  have Ps: "has_shape P 6 6"
    using svd_projector_facts(1)[OF assms(3) K_def P_def] by (simp add: dims)
  have 1: "compute_constraint_projector svd lstsq 6 (9/2) = Inr (project P v)"
    unfolding P_def using assms(1,2,4) K_def by (rule compute_constraint_projector_eq)
  have 2: "project P v v = Inr v"
    using Ps vs by (rule project_fixed_point)
  have 3: "list_all2 (\<lambda>x d. \<bar>x - d\<bar> \<le> 5/100000) (flatten v6)
           [238/10000, 810/10000, 1381/10000, 1952/10000, 2524/10000, 3095/10000]"
    by (simp add: flatten_def v6_def)
  show ?thesis
    using 1 2 3 v unfolding v6_def by blast

qed

section \<open>Independence of the decomposition\<close>

lemma sum_split_at: "(\<Sum>l<k + d. f l) = (\<Sum>l<k. f l) + (\<Sum>a<(d::nat). (f (k + a) :: real))"
  by (induction d) (simp_all add: add.assoc)

lemma svd_dims:
  assumes "is_svd A U S VT"
  shows "has_shape U (nrows A) (nrows A)" "has_shape VT (ncols A) (ncols A)"
    "length S = min (nrows A) (ncols A)"
    "mm_raw VT (transpose_t VT) = eye (ncols A)" "mm_raw (transpose_t VT) VT = eye (ncols A)"
    "mm_raw U (transpose_t U) = eye (nrows A)" "mm_raw (transpose_t U) U = eye (nrows A)"
    "mm_raw (mm_raw U (diag_embed (nrows A) (ncols A) S)) VT = A"
  using assms by (auto simp: is_svd_def orthogonal_def dest: has_shape_nrows)

lemma kernel_projector_entry:
  assumes "is_svd A U S VT" "K = slice_cols (length S) (transpose_t VT)"
    and "i < ncols A" "j < ncols A"
  shows "entry (mm_raw K (transpose_t K)) i j
         = (if i = j then 1 else 0) - (\<Sum>l<length S. entry VT l i * entry VT l j)"
proof -
  let ?n = "ncols A" and ?k = "length S"
  note s = svd_dims[OF assms(1)]
  have vd: "nrows VT = ?n" "ncols VT = ?n"
    using s(2) by (simp_all add: has_shape_nrows has_shape_ncols)
  have kn: "?k + (?n - ?k) = ?n"
    using s(3) by simp
  have Kd: "nrows K = ?n" "ncols K = ?n - ?k"
    using has_shape_kernel_basis[OF s(2), of ?k]
    by (simp_all add: assms(2) has_shape_nrows has_shape_ncols del: nrows_slice_cols ncols_slice_cols)
  have "entry (mm_raw (transpose_t VT) VT) i j = (\<Sum>l<?n. entry (transpose_t VT) i l * entry VT l j)"
    using assms(3,4) vd by (simp add: entry_mm_raw)
  also have "\<dots> = (\<Sum>l<?n. entry VT l i * entry VT l j)"
    using assms(3) vd by (intro sum.cong) simp_all
  finally have "(\<Sum>l<?n. entry VT l i * entry VT l j) = (if i = j then 1 else 0)"
    using assms(3,4) by (simp add: s(5) eye_def)
  then have split: "(\<Sum>l<?k. entry VT l i * entry VT l j)
      + (\<Sum>a<?n - ?k. entry VT (?k + a) i * entry VT (?k + a) j) = (if i = j then 1 else 0)"
    using sum_split_at[of "\<lambda>l. entry VT l i * entry VT l j" ?k "?n - ?k"] by (simp only: kn)
  have "entry (mm_raw K (transpose_t K)) i j = (\<Sum>a<?n - ?k. entry K i a * entry (transpose_t K) a j)"
    using assms(3,4) Kd by (simp add: entry_mm_raw)
  also have "\<dots> = (\<Sum>a<?n - ?k. entry VT (?k + a) i * entry VT (?k + a) j)"
  proof (rule sum.cong)
    fix a assume "a \<in> {..<?n - ?k}"
    then have a: "a < ?n - ?k" by simp
    have "entry (transpose_t K) a j = entry K j a"
      using a assms(4) Kd by simp
    then show "entry K i a * entry (transpose_t K) a j = entry VT (?k + a) i * entry VT (?k + a) j"
      using a assms(3,4) s(2) by (simp add: assms(2) entry_kernel_basis)
  qed simp
  finally show ?thesis
    using split by simp
qed

lemma singular_rows:
  assumes "is_svd A U S VT" "q < length S" "j < ncols A"
  shows "S ! q * entry VT q j = (\<Sum>i<nrows A. entry U i q * entry A i j)"
proof -
  let ?m = "nrows A" and ?n = "ncols A"
  let ?D = "diag_embed ?m ?n S"
  note s = svd_dims[OF assms(1)]
  have ud: "nrows U = ?m" "ncols U = ?m" and vd: "nrows VT = ?n" "ncols VT = ?n"
    using s(1,2) by (simp_all add: has_shape_nrows has_shape_ncols)
  have q: "q < ?m" "q < ?n"
    using assms(2) s(3) by simp_all
  have D: "has_shape ?D ?m ?n"
    by (simp add: diag_embed_def)
  have "mm_raw (transpose_t U) A = mm_raw (transpose_t U) (mm_raw (mm_raw U ?D) VT)"
    by (simp add: s(8))
  also have "\<dots> = mm_raw (mm_raw (transpose_t U) (mm_raw U ?D)) VT"
    by (rule mm_raw_assoc[symmetric]) (simp add: ud)
  also have "mm_raw (transpose_t U) (mm_raw U ?D) = mm_raw (mm_raw (transpose_t U) U) ?D"
    by (rule mm_raw_assoc[symmetric]) (simp add: ud)
  also have "\<dots> = ?D"
    using D by (simp add: s(7) mm_raw_eye_left)
  finally have e: "mm_raw (transpose_t U) A = mm_raw ?D VT" .
  have "entry (mm_raw ?D VT) q j = (\<Sum>l<?n. entry ?D q l * entry VT l j)"
    using q assms(3) vd by (simp add: entry_mm_raw diag_embed_def)
  also have "\<dots> = (\<Sum>l<?n. (if q = l then 1 else 0) * (S ! q * entry VT l j))"
    using q by (intro sum.cong) (simp_all add: diag_embed_def)
  also have "\<dots> = S ! q * entry VT q j"
    using q(2) by (rule sum_delta_left)
  finally have 1: "entry (mm_raw ?D VT) q j = S ! q * entry VT q j" .
  have "entry (mm_raw (transpose_t U) A) q j = (\<Sum>i<?m. entry (transpose_t U) q i * entry A i j)"
    using q assms(3) ud by (simp add: entry_mm_raw)
  also have "\<dots> = (\<Sum>i<?m. entry U i q * entry A i j)"
    using q ud by (intro sum.cong) simp_all
  finally show ?thesis
    using 1 e by simp
qed

lemma singular_value_nonzero:
  assumes "constraint_A n = Inr A" "2 \<le> n" "is_svd A U S VT" "q < 2"
  shows "S ! q \<noteq> 0"
proof
  assume z: "S ! q = 0"
  have dims: "nrows A = 2" "ncols A = n"
    using constraint_A_shape[OF assms(1)] by (simp_all add: has_shape_nrows has_shape_ncols)
  note s = svd_dims[OF assms(3), unfolded dims]
  have ud: "nrows U = 2" "ncols U = 2"
    using s(1) by (simp_all add: has_shape_nrows has_shape_ncols)
  have qS: "q < length S"
    using assms(2,4) s(3) by simp
  have r: "entry U 0 q * entry A 0 j + entry U (Suc 0) q * entry A (Suc 0) j = 0" if "j < n" for j
    using singular_rows[OF assms(3) qS, of j] that by (simp add: dims z sum_two)
  have "entry U 0 q + entry U (Suc 0) q = 0"
    using r[of 0] assms(2) by (simp add: constraint_A_row0[OF assms(1)] constraint_A_row1[OF assms(1)])
  moreover have "entry U 0 q + entry U (Suc 0) q * 2 = 0"
    using r[of 1] assms(2) by (simp add: constraint_A_row0[OF assms(1)] constraint_A_row1[OF assms(1)])
  ultimately have u: "entry U 0 q = 0" "entry U (Suc 0) q = 0"
    by simp_all
  have "entry (mm_raw (transpose_t U) U) q q = (\<Sum>i<2. entry (transpose_t U) q i * entry U i q)"
    using assms(4) ud by (simp add: entry_mm_raw)
  also have "\<dots> = 0"
    using assms(4) ud u by (simp add: sum_two)
  finally show False
    using assms(4) by (simp add: s(7) eye_def)
qed

lemma kernel_projector_absorbs:
  assumes "constraint_A n = Inr A" "2 \<le> n" "is_svd A U S VT"
    and "K = slice_cols (length S) (transpose_t VT)" "P = mm_raw K (transpose_t K)"
    and "has_shape Q n n" "mm_raw A Q = zeros 2 n"
  shows "mm_raw P Q = Q"
proof (rule tensor_eqI[where r = n and c = n])
  have dims: "nrows A = 2" "ncols A = n"
    using constraint_A_shape[OF assms(1)] by (simp_all add: has_shape_nrows has_shape_ncols)
  note s = svd_dims[OF assms(3), unfolded dims]
  have S: "length S = 2"
    using s(3) assms(2) by simp
  have Pd: "nrows P = n" "ncols P = n"
    using svd_projector_facts(1)[OF assms(3,4,5)] by (simp_all add: dims has_shape_nrows has_shape_ncols)
  have Qd: "nrows Q = n" "ncols Q = n"
    using assms(6) by (simp_all add: has_shape_nrows has_shape_ncols)
  show "has_shape (mm_raw P Q) n n"
    by (simp add: Pd Qd)
  show "has_shape Q n n"
    by fact
  fix i j assume ij: "i < n" "j < n"
  have kill: "(\<Sum>l<n. entry VT q l * entry Q l j) = 0" if q: "q < 2" for q
  proof -
    have "S ! q * (\<Sum>l<n. entry VT q l * entry Q l j)
        = (\<Sum>l<n. (S ! q * entry VT q l) * entry Q l j)"
      by (simp add: sum_distrib_left mult.assoc)
    also have "\<dots> = (\<Sum>l<n. (\<Sum>a<2. entry U a q * entry A a l) * entry Q l j)"
      using q by (intro sum.cong) (simp_all add: singular_rows[OF assms(3)] S dims)
    also have "\<dots> = (\<Sum>l<n. \<Sum>a<2. entry U a q * (entry A a l * entry Q l j))"
      by (simp add: sum_distrib_right mult.assoc)
    also have "\<dots> = (\<Sum>a<2. \<Sum>l<n. entry U a q * (entry A a l * entry Q l j))"
      by (rule sum.swap)
    also have "\<dots> = (\<Sum>a<2. entry U a q * (\<Sum>l<n. entry A a l * entry Q l j))"
      by (simp add: sum_distrib_left)
    also have "\<dots> = (\<Sum>a<2. entry U a q * entry (mm_raw A Q) a j)"
      using ij by (intro sum.cong) (simp_all add: entry_mm_raw dims Qd)
    also have "\<dots> = 0"
      using ij by (simp add: assms(7))
    finally show ?thesis
      using singular_value_nonzero[OF assms(1,2,3) q] by simp
  qed
  have "entry (mm_raw P Q) i j = (\<Sum>l<n. entry P i l * entry Q l j)"
    using ij by (simp add: entry_mm_raw Pd Qd)
  also have "\<dots> = (\<Sum>l<n. (if i = l then 1 else 0) * entry Q l j
        - (\<Sum>q<2. entry VT q i * (entry VT q l * entry Q l j)))"
    using ij
    by (intro sum.cong)
       (simp_all add: assms(5) kernel_projector_entry[OF assms(3,4)] dims S left_diff_distrib
         sum_distrib_right mult.assoc)
  also have "\<dots> = (\<Sum>l<n. (if i = l then 1 else 0) * entry Q l j)
        - (\<Sum>l<n. \<Sum>q<2. entry VT q i * (entry VT q l * entry Q l j))"
    by (rule sum_subtractf)
  also have "(\<Sum>l<n. (if i = l then 1 else 0) * entry Q l j) = entry Q i j"
    using ij(1) by (rule sum_delta_left)
  also have "(\<Sum>l<n. \<Sum>q<2. entry VT q i * (entry VT q l * entry Q l j))
      = (\<Sum>q<2. \<Sum>l<n. entry VT q i * (entry VT q l * entry Q l j))"
    by (rule sum.swap)
  also have "\<dots> = (\<Sum>q<2. entry VT q i * (\<Sum>l<n. entry VT q l * entry Q l j))"
    by (simp add: sum_distrib_left)
  also have "\<dots> = 0"
    by (simp add: kill)
  finally show "entry (mm_raw P Q) i j = entry Q i j"
    by simp
qed

lemma kernel_projector_unique:
  assumes "constraint_A n = Inr A"
    and "is_svd A U S VT" "K = slice_cols (length S) (transpose_t VT)"
    and "is_svd A U' S' VT'" "K' = slice_cols (length S') (transpose_t VT')"
  shows "mm_raw K (transpose_t K) = mm_raw K' (transpose_t K')"
proof (cases "2 \<le> n")
  case True
  define P where "P = mm_raw K (transpose_t K)"
  define Q where "Q = mm_raw K' (transpose_t K')"
  have dims: "nrows A = 2" "ncols A = n"
    using constraint_A_shape[OF assms(1)] by (simp_all add: has_shape_nrows has_shape_ncols)
  note p = svd_projector_facts[OF assms(2,3) P_def, unfolded dims]
  note q = svd_projector_facts[OF assms(4,5) Q_def, unfolded dims]
  have pd: "nrows P = n" "ncols P = n" and qd: "nrows Q = n" "ncols Q = n"
    using p(1) q(1) by (simp_all add: has_shape_nrows has_shape_ncols)
  have 1: "mm_raw P Q = Q"
    using assms(1) True assms(2,3) P_def q(1) q(4) by (rule kernel_projector_absorbs)
  have 2: "mm_raw Q P = P"
    using assms(1) True assms(4,5) Q_def p(1) p(4) by (rule kernel_projector_absorbs)
  have "Q = transpose_t (mm_raw P Q)"
    by (simp add: 1 q(2))
  also have "\<dots> = mm_raw (transpose_t Q) (transpose_t P)"
    by (rule transpose_mm_raw) (simp add: pd qd)
  also have "\<dots> = P"
    by (simp add: p(2) q(2) 2)
  finally show ?thesis
    by (simp add: P_def Q_def)
next
  case False
  have dims: "nrows A = 2" "ncols A = n"
    using constraint_A_shape[OF assms(1)] by (simp_all add: has_shape_nrows has_shape_ncols)
  have "has_shape K n (n - length S)" "has_shape K' n (n - length S')"
    using has_shape_kernel_basis svd_dims(2)[OF assms(2)] svd_dims(2)[OF assms(4)]
    unfolding assms(3,5) dims by blast+
  moreover have "n - length S = 0" "n - length S' = 0"
    using False svd_dims(3)[OF assms(2)] svd_dims(3)[OF assms(4)] by (simp_all add: dims)
  ultimately have "nrows K = n" "ncols K = 0" "nrows K' = n" "ncols K' = 0"
    by (metis has_shape_nrows, metis has_shape_ncols, metis has_shape_nrows, metis has_shape_ncols)
  then show ?thesis
    by (simp add: empty_kernel_projector)
qed

text \<open>
  Claim C9. The run consumes nothing but its parameters and the results of the two library
  calls, and these results do not matter beyond their contracts: two executions, each with
  its own singular value decomposition and its own least-squares solver, construct the same
  module and return the same final module (the same probability vector) and the same
  entropy, or fail alike.
\<close>

theorem run_deterministic:
  assumes "constraint_A n = Inr A"
    and "svd A = Inr (U, S, VT)" "is_svd A U S VT"
    and "lstsq A (constraint_b mean) = Inr v" "is_lstsq A (constraint_b mean) v"
    and "svd' A = Inr (U', S', VT')" "is_svd A U' S' VT'"
    and "lstsq' A (constraint_b mean) = Inr v'" "is_lstsq A (constraint_b mean) v'"
  shows "run svd lstsq n mean lr iters = run svd' lstsq' n mean lr iters \<and>
         (case run svd lstsq n mean lr iters of Inl e \<Rightarrow> Inl e | Inr m \<Rightarrow> forward m)
       = (case run svd' lstsq' n mean lr iters of Inl e \<Rightarrow> Inl e | Inr m \<Rightarrow> forward m)"
proof -
  define K where "K = slice_cols (length S) (transpose_t VT)"
  define K' where "K' = slice_cols (length S') (transpose_t VT')"
  have P: "mm_raw K (transpose_t K) = mm_raw K' (transpose_t K')"
    using assms(1,3) K_def assms(7) K'_def by (rule kernel_projector_unique)
  have v: "v = v'"
    using assms(5,9) by (rule lstsq_unique)
  have 1: "compute_constraint_projector svd lstsq n mean = Inr (project (mm_raw K (transpose_t K)) v)"
    using assms(1,2,4) K_def by (rule compute_constraint_projector_eq)
  have 2: "compute_constraint_projector svd' lstsq' n mean = Inr (project (mm_raw K' (transpose_t K')) v')"
    using assms(1,6,8) K'_def by (rule compute_constraint_projector_eq)
  have "init svd lstsq n mean = init svd' lstsq' n mean"
    by (simp add: init_def 1 2 P v)
  then have "run svd lstsq n mean lr iters = run svd' lstsq' n mean lr iters"
    by (simp add: run_def)
  then show ?thesis
    by simp
qed

section \<open>Construction and its failures\<close>

lemma upt1: "[0..<1] = [0]"
  by (simp add: upt_rec)

lemma h1_sq: "h1 * h1 = 1 / 2" "h1 * sqrt 2 = 1"
  by (simp_all add: h1_def)

lemma constraint_A_1: "constraint_A 1 = Inr A1"
  by (simp add: constraint_A_def stack_def ones_def arange1_def A1_def Let_def)

lemma is_svd_1: "is_svd A1 U1 S1 VT1"

proof -
  have sh: "has_shape A1 2 1" "has_shape U1 2 2" "has_shape VT1 1 1" "length S1 = 1"
    by (simp_all add: has_shape_def nrows_def A1_def U1_def VT1_def S1_def)
  have d: "nrows A1 = 2" "ncols A1 = 1" "nrows U1 = 2" "nrows VT1 = 1"
    using sh by (simp_all add: has_shape_nrows has_shape_ncols)
  have 1: "mm_raw U1 (transpose_t U1) = eye 2" "mm_raw (transpose_t U1) U1 = eye 2"
    by (simp_all add: mm_raw_def transpose_t_def tabulate_def entry_def nrows_def eye_def upt2
        U1_def h1_sq)
  have 2: "mm_raw VT1 (transpose_t VT1) = eye 1" "mm_raw (transpose_t VT1) VT1 = eye 1"
    by (simp_all add: mm_raw_def transpose_t_def tabulate_def entry_def nrows_def eye_def upt1
        VT1_def)
  have 3: "mm_raw (mm_raw U1 (diag_embed 2 1 S1)) VT1 = A1"
    by (simp add: mm_raw_def tabulate_def entry_def nrows_def diag_embed_def upt2 upt1
        U1_def VT1_def S1_def A1_def h1_sq)
  show ?thesis
    unfolding is_svd_def orthogonal_def d using sh 1 2 3 by simp

qed

lemma A1_column:
  assumes "has_shape x 1 1" "i < 2"
  shows "entry (mm_raw A1 x) i 0 = entry x 0 0"

proof -
  have "entry (mm_raw A1 x) i 0 = (\<Sum>k<1. entry A1 i k * entry x k 0)"
    using assms by (subst entry_mm_raw_column) (simp_all add: A1_def nrows_def has_shape_ncols)
  also have "\<dots> = entry x 0 0"
    using assms(2) by (auto simp: A1_def entry_def less_2_cases_iff)
  finally show ?thesis .

qed

lemma residual_1:
  assumes "has_shape x 1 1"
  shows "sq_residual A1 (constraint_b 2) x = (entry x 0 0 - 1)\<^sup>2 + (entry x 0 0 - 2)\<^sup>2"

proof -
  have "nrows A1 = 2"
    by (simp add: A1_def nrows_def)
  then show ?thesis
    by (simp add: sq_residual_sum sum_two A1_column[OF assms])

qed

lemma v1_is_lstsq: "is_lstsq A1 (constraint_b 2) v1"

proof -
  have v: "has_shape v1 1 1" and e: "entry v1 0 0 = 3/2"
    by (simp_all add: v1_def has_shape_def nrows_def entry_def)
  have rv: "sq_residual A1 (constraint_b 2) v1 = 1/2"
    by (simp add: residual_1[OF v] e power2_eq_square)
  have gap: "sq_residual A1 (constraint_b 2) x - 1/2 = 2 * (entry x 0 0 - 3/2)\<^sup>2"
    if "has_shape x 1 1" for x
    by (simp add: residual_1[OF that] power2_eq_square algebra_simps)
  have 1: "sq_residual A1 (constraint_b 2) v1 \<le> sq_residual A1 (constraint_b 2) x"
    if "has_shape x 1 1" for x
    using gap[OF that] rv by (smt (verit) zero_le_power2)
  have 2: "sq_norm v1 \<le> sq_norm x"
    if x: "has_shape x 1 1" and r: "sq_residual A1 (constraint_b 2) x = sq_residual A1 (constraint_b 2) v1" for x
  proof -
    have "entry x 0 0 = 3/2"
      using gap[OF x] r rv by simp
    then show ?thesis
      using x v by (simp add: sq_norm_sum has_shape_nrows e)
  qed
  show ?thesis
    unfolding is_lstsq_def is_least_squares_def using v 1 2 by (simp add: A1_def)

qed

lemma A1_rank_deficient: "\<not> full_row_rank A1"
  by (simp add: full_row_rank_def A1_def entry_def)

lemma A1_inconsistent: "\<not> consistent A1 (constraint_b 2)"

proof
  assume "consistent A1 (constraint_b 2)"
  then obtain x where x: "has_shape x 1 1" "mm_raw A1 x = constraint_b 2"
    by (auto simp: consistent_def A1_def)
  have "entry x 0 0 = 1" "entry x 0 0 = 2"
    using A1_column[OF x(1), of 0] A1_column[OF x(1), of 1] by (simp_all add: x(2))
  then show False by simp

qed

lemma captures_one_face:
  "projector_captures svd_one_face lstsq_one_face 1 2 = Inr (zeros 1 1, v1)"

proof -
  define K where "K = slice_cols (length S1) (transpose_t VT1)"
  have "nrows VT1 = 1" "ncols VT1 = 1"
    by (simp_all add: VT1_def nrows_def)
  then have "ncols K = 0" "nrows K = 1"
    by (simp_all add: K_def S1_def)
  then have P: "mm_raw K (transpose_t K) = zeros 1 1"
    using empty_kernel_projector[of K] by simp
  have "projector_captures svd_one_face lstsq_one_face 1 2 = Inr (mm_raw K (transpose_t K), v1)"
    using constraint_A_1 _ _ K_def
    by (rule projector_captures_eq) (simp_all add: svd_one_face_def lstsq_one_face_def)
  then show ?thesis
    by (simp add: P)

qed

text \<open>
  Claim C6 fails as stated. For one face and target mean \<open>2\<close> the constraint matrix has
  rank one and the system has no solution, the two library calls return what their
  contracts ask for, and construction returns a projector.
\<close>

theorem construction_error_counterexample:
  "constraint_A 1 = Inr A1 \<and> \<not> full_row_rank A1 \<and> \<not> consistent A1 (constraint_b 2) \<and>
   svd_one_face A1 = Inr (U1, S1, VT1) \<and> is_svd A1 U1 S1 VT1 \<and>
   lstsq_one_face A1 (constraint_b 2) = Inr v1 \<and> is_lstsq A1 (constraint_b 2) v1 \<and>
   compute_constraint_projector svd_one_face lstsq_one_face 1 2 = Inr (project (zeros 1 1) v1) \<and>
   init svd_one_face lstsq_one_face 1 2 =
     Inr \<lparr>num_faces = 1, mean_constraint = 2, constraint_projector = project (zeros 1 1) v1,
          p = [1], grad = None\<rparr>"
  using constraint_A_1 A1_rank_deficient A1_inconsistent is_svd_1 v1_is_lstsq captures_one_face
  by (simp add: init_def compute_constraint_projector_def ones_def
      svd_one_face_def lstsq_one_face_def)

text \<open>
  Claim C6, amended. Construction has no check of its own: when both library calls return,
  it returns a projector and the module is built, whatever the rank of the matrix. It fails
  when one of the two calls fails, with that error, and then the run stops at construction,
  before any pass of the loop.
\<close>

theorem construction_only_fails_in_library:
  assumes "constraint_A n = Inr A"
  shows "(svd A = Inr (U, S, VT) \<and> lstsq A (constraint_b mean) = Inr v \<longrightarrow>
            (\<exists>proj. compute_constraint_projector svd lstsq n mean = Inr proj \<and>
               init svd lstsq n mean =
                 Inr \<lparr>num_faces = n, mean_constraint = mean, constraint_projector = proj,
                      p = ones n, grad = None\<rparr>)) \<and>
         (svd A = Inl e \<longrightarrow>
            compute_constraint_projector svd lstsq n mean = Inl e \<and> run svd lstsq n mean lr k = Inl e) \<and>
         (svd A = Inr (U, S, VT) \<and> lstsq A (constraint_b mean) = Inl e \<longrightarrow>
            compute_constraint_projector svd lstsq n mean = Inl e \<and> run svd lstsq n mean lr k = Inl e)"

proof (intro conjI impI)
  assume a: "svd A = Inr (U, S, VT) \<and> lstsq A (constraint_b mean) = Inr v"
  define K where "K = slice_cols (length S) (transpose_t VT)"
  have "compute_constraint_projector svd lstsq n mean = Inr (project (mm_raw K (transpose_t K)) v)"
    using assms a K_def by (intro compute_constraint_projector_eq[where A = A and U = U]) simp_all
  then show "\<exists>proj. compute_constraint_projector svd lstsq n mean = Inr proj \<and>
      init svd lstsq n mean =
        Inr \<lparr>num_faces = n, mean_constraint = mean, constraint_projector = proj,
             p = ones n, grad = None\<rparr>"
    by (simp add: init_def)

next
  assume a: "svd A = Inl e"
  then show "compute_constraint_projector svd lstsq n mean = Inl e"
    using assms by (simp add: compute_constraint_projector_def projector_captures_def)
  then show "run svd lstsq n mean lr k = Inl e"
    by (simp add: run_def init_def)

next
  assume a: "svd A = Inr (U, S, VT) \<and> lstsq A (constraint_b mean) = Inl e"
  then show "compute_constraint_projector svd lstsq n mean = Inl e"
    using assms by (simp add: compute_constraint_projector_def projector_captures_def mm_conform Let_def)
  then show "run svd lstsq n mean lr k = Inl e"
    by (simp add: run_def init_def)

qed

theorem construction_only_fails_in_library_witness:
  "constraint_A 1 = Inr A1 \<and> svd_one_face A1 = Inr (U1, S1, VT1) \<and>
   lstsq_one_face A1 (constraint_b 2) = Inr v1 \<and>
   (\<exists>proj. compute_constraint_projector svd_one_face lstsq_one_face 1 2 = Inr proj \<and>
      init svd_one_face lstsq_one_face 1 2 =
        Inr \<lparr>num_faces = 1, mean_constraint = 2, constraint_projector = proj,
             p = ones 1, grad = None\<rparr>) \<and>
   svd_failing A1 = Inl LinAlgError \<and>
   run svd_failing lstsq_one_face 1 2 (1/1000) 2000 = Inl LinAlgError \<and>
   lstsq_failing A1 (constraint_b 2) = Inl LinAlgError \<and>
   run svd_one_face lstsq_failing 1 2 (1/1000) 2000 = Inl LinAlgError"
  using construction_only_fails_in_library[OF constraint_A_1,
      of svd_one_face U1 S1 VT1 lstsq_one_face 2 v1 LinAlgError "1/1000" 2000]
    construction_only_fails_in_library[OF constraint_A_1,
      of svd_failing U1 S1 VT1 lstsq_one_face 2 v1 LinAlgError "1/1000" 2000]
    construction_only_fails_in_library[OF constraint_A_1,
      of svd_one_face U1 S1 VT1 lstsq_failing 2 v1 LinAlgError "1/1000" 2000]
    constraint_A_1
  by (simp add: svd_one_face_def lstsq_one_face_def svd_failing_def lstsq_failing_def)

section \<open>The concrete decompositions are singular value decompositions\<close>

lemmas tensor_eval =
  mm_raw_def transpose_t_def tabulate_def entry_def nrows_def eye_def diag_embed_def upt2 upt6

subsection \<open>Two faces\<close>

lemma phi_sq: "phi * phi = phi + 1"
  by (simp add: phi_def field_simps)

lemma phi_sq': "phi * (phi * x) = phi * x + x"
  using phi_sq by (metis distrib_right mult.assoc mult_1)

lemma phi_pos: "0 < phi"
  by (simp add: phi_def add_pos_nonneg)

lemma t2_sq: "t2 * t2 = phi + 2"
proof -
  have "0 \<le> (5 + sqrt 5) / 2" by simp
  then have "t2 * t2 = (5 + sqrt 5) / 2"
    unfolding t2_def by (simp only: real_sqrt_mult_self abs_of_nonneg)
  then show ?thesis by (simp add: phi_def field_simps)
qed

lemma t2_nz: "t2 \<noteq> 0"
  using phi_pos t2_sq by auto

lemma phi2_nz: "phi + 2 \<noteq> 0"
  using phi_pos by simp

lemmas w2_facts = t2_nz t2_sq phi_sq phi2_nz phi_pos

lemma U2_rows: "mm_raw U2 (transpose_t U2) = eye 2"
  using w2_facts by (simp add: tensor_eval U2_def) (simp add: field_simps phi_sq phi_sq')

lemma U2_cols: "mm_raw (transpose_t U2) U2 = eye 2"
  using w2_facts by (simp add: tensor_eval U2_def) (simp add: field_simps phi_sq phi_sq')

lemma VT2_rows: "mm_raw VT2 (transpose_t VT2) = eye 2"
  using w2_facts by (simp add: tensor_eval VT2_def) (simp add: field_simps phi_sq phi_sq')

lemma VT2_cols: "mm_raw (transpose_t VT2) VT2 = eye 2"
  using w2_facts by (simp add: tensor_eval VT2_def) (simp add: field_simps phi_sq phi_sq')

lemma S2_phi: "S2 = [phi + 1, 2 - phi]"
  by (simp add: S2_def phi_def field_simps)

lemma A2_factors: "mm_raw (mm_raw U2 (diag_embed 2 2 S2)) VT2 = A2"
  using w2_facts
  by (simp add: tensor_eval U2_def VT2_def A2_def S2_phi) (simp add: field_simps phi_sq phi_sq')

lemma shapes_2:
  "has_shape A2 2 2" "has_shape U2 2 2" "has_shape VT2 2 2" "length S2 = 2"
  "has_shape U2' 2 2" "has_shape VT2' 2 2"
  by (simp_all add: has_shape_def nrows_def A2_def U2_def VT2_def S2_def U2'_def VT2'_def)

lemma is_svd_2: "is_svd A2 U2 S2 VT2"
proof -
  have d: "nrows A2 = 2" "ncols A2 = 2" "nrows U2 = 2" "nrows VT2 = 2"
    using shapes_2 by (simp_all add: has_shape_nrows has_shape_ncols)
  show ?thesis
    unfolding is_svd_def orthogonal_def d
    using U2_rows U2_cols VT2_rows VT2_cols A2_factors shapes_2 by simp
qed

lemma U2'_rows: "mm_raw U2' (transpose_t U2') = eye 2"
  using w2_facts by (simp add: tensor_eval U2'_def) (simp add: field_simps phi_sq phi_sq')

lemma U2'_cols: "mm_raw (transpose_t U2') U2' = eye 2"
  using w2_facts by (simp add: tensor_eval U2'_def) (simp add: field_simps phi_sq phi_sq')

lemma VT2'_rows: "mm_raw VT2' (transpose_t VT2') = eye 2"
  using w2_facts by (simp add: tensor_eval VT2'_def) (simp add: field_simps phi_sq phi_sq')

lemma VT2'_cols: "mm_raw (transpose_t VT2') VT2' = eye 2"
  using w2_facts by (simp add: tensor_eval VT2'_def) (simp add: field_simps phi_sq phi_sq')

lemma A2_factors': "mm_raw (mm_raw U2' (diag_embed 2 2 S2)) VT2' = A2"
  using w2_facts
  by (simp add: tensor_eval U2'_def VT2'_def A2_def S2_phi) (simp add: field_simps phi_sq phi_sq')

lemma is_svd_2': "is_svd A2 U2' S2 VT2'"
proof -
  have d: "nrows A2 = 2" "ncols A2 = 2" "nrows U2' = 2" "nrows VT2' = 2"
    using shapes_2 by (simp_all add: has_shape_nrows has_shape_ncols)
  show ?thesis
    unfolding is_svd_def orthogonal_def d
    using U2'_rows U2'_cols VT2'_rows VT2'_cols A2_factors' shapes_2 by simp
qed

subsection \<open>Six faces\<close>

text \<open>
  Every product of two of the square roots is rewritten to a polynomial in \<open>r6\<close>, so that
  the entries of the matrix products are decided by arithmetic on rational numbers.
\<close>

lemma r6_sq: "r6 * r6 = 8989" "r6 * (r6 * x) = 8989 * x"
  by (simp_all add: r6_def flip: mult.assoc)

lemma r6_bounds: "94 < r6" "r6 < 95"
  by (simp_all add: r6_def real_less_rsqrt real_less_lsqrt)

lemma sq_rules: "a * a = (c::real) \<Longrightarrow> a * (a * x) = c * x"
  by (simp flip: mult.assoc)

lemma bp_sq: "bp * bp = (17978 - 170 * r6) / 63426384"
proof -
  have "0 < 17978 + 170 * r6" using r6_bounds by simp
  then have "bp * bp = 1 / (17978 + 170 * r6)"
    by (simp add: bp_def)
  also have "\<dots> = (17978 - 170 * r6) / 63426384"
    using r6_bounds by (simp add: field_simps r6_sq)
  finally show ?thesis .
qed

lemma bm_sq: "bm * bm = (17978 + 170 * r6) / 63426384"
proof -
  have "0 < 17978 - 170 * r6" using r6_bounds by simp
  then have "bm * bm = 1 / (17978 - 170 * r6)"
    by (simp add: bm_def)
  also have "\<dots> = (17978 + 170 * r6) / 63426384"
    using r6_bounds by (simp add: field_simps r6_sq)
  finally show ?thesis .
qed

lemma sp_pos: "0 < sp" and sm_pos: "0 < sm"
  using r6_bounds by (simp_all add: sp_def sm_def)

lemma sp_sq: "sp * sp = (97 + r6) / 2" and sm_sq: "sm * sm = (97 - r6) / 2"
  using r6_bounds by (simp_all add: sp_def sm_def)

lemma tp_sq: "tp * tp = (97 - r6) / 210"
proof -
  have "tp * tp = 1 / (sp * sp)"
    by (simp add: tp_def)
  also have "\<dots> = (97 - r6) / 210"
    using r6_bounds by (simp add: sp_sq field_simps r6_sq)
  finally show ?thesis .
qed

lemma tm_sq: "tm * tm = (97 + r6) / 210"
proof -
  have "tm * tm = 1 / (sm * sm)"
    by (simp add: tm_def)
  also have "\<dots> = (97 + r6) / 210"
    using r6_bounds by (simp add: sm_sq field_simps r6_sq)
  finally show ?thesis .
qed

lemma sp_tp: "sp * tp = 1" "sm * tm = 1" "sp * (tp * x) = x" "sm * (tm * x) = x"
  using sp_pos sm_pos by (simp_all add: tp_def tm_def)

lemma s3_sq: "s3 * s3 = 3" and s105_sq: "s105 * s105 = 105"
  by (simp_all add: s3_def s105_def)

lemmas w6_rules = r6_sq bp_sq bp_sq[THEN sq_rules] bm_sq bm_sq[THEN sq_rules]
  tp_sq tp_sq[THEN sq_rules] tm_sq tm_sq[THEN sq_rules] sp_tp
  s3_sq s3_sq[THEN sq_rules] s105_sq s105_sq[THEN sq_rules]

lemma VT6_rows: "mm_raw VT6 (transpose_t VT6) = eye 6"
  by (simp add: tensor_eval VT6_def) (simp add: field_simps w6_rules)

lemma VT6_cols: "mm_raw (transpose_t VT6) VT6 = eye 6"
  by (simp add: tensor_eval VT6_def) (simp add: field_simps w6_rules)

lemma U6_rows: "mm_raw U6 (transpose_t U6) = eye 2"
  by (simp add: tensor_eval U6_def) (simp add: field_simps w6_rules)

lemma U6_cols: "mm_raw (transpose_t U6) U6 = eye 2"
  by (simp add: tensor_eval U6_def) (simp add: field_simps w6_rules)

lemma A6_factors: "mm_raw (mm_raw U6 (diag_embed 2 6 S6)) VT6 = A6"
  by (simp add: tensor_eval U6_def VT6_def S6_def A6_def) (simp add: field_simps w6_rules)

lemma shapes_6: "has_shape A6 2 6" "has_shape U6 2 2" "has_shape VT6 6 6" "length S6 = 2"
  by (simp_all add: has_shape_def nrows_def A6_def U6_def VT6_def S6_def)

lemma is_svd_6: "is_svd A6 U6 S6 VT6"
proof -
  have d: "nrows A6 = 2" "ncols A6 = 6" "nrows U6 = 2" "nrows VT6 = 6"
    using shapes_6 by (simp_all add: has_shape_nrows has_shape_ncols)
  show ?thesis
    unfolding is_svd_def orthogonal_def d
    using U6_rows U6_cols VT6_rows VT6_cols A6_factors shapes_6 by simp
qed

section \<open>The theorems at the concrete instances\<close>

lemma A6_full_row_rank: "full_row_rank A6"
  using constraint_A_full_row_rank[OF constraint_A_6] by simp

lemma x6_shape: "has_shape x6 6 1"
  by (simp add: x6_def has_shape_def nrows_def)

theorem kernel_projector_invariant_witness:
  "constraint_A 6 = Inr A6 \<and> svd_six_faces A6 = Inr (U6, S6, VT6) \<and> is_svd A6 U6 S6 VT6 \<and>
   lstsq_six_faces A6 (constraint_b (9/2)) = Inr v6 \<and>
   projector_captures svd_six_faces lstsq_six_faces 6 (9/2)
     = Inr (mm_raw (slice_cols 2 (transpose_t VT6)) (transpose_t (slice_cols 2 (transpose_t VT6))), v6) \<and>
   transpose_t (mm_raw (slice_cols 2 (transpose_t VT6)) (transpose_t (slice_cols 2 (transpose_t VT6))))
     = mm_raw (slice_cols 2 (transpose_t VT6)) (transpose_t (slice_cols 2 (transpose_t VT6))) \<and>
   mm A6 (mm_raw (slice_cols 2 (transpose_t VT6)) (transpose_t (slice_cols 2 (transpose_t VT6))))
     = Inr (zeros 2 6)"
proof -
  have S: "length S6 = 2"
    by (simp add: S6_def)
  show ?thesis
    using kernel_projector_invariant[OF constraint_A_6, of svd_six_faces U6 S6 VT6 lstsq_six_faces
        "9/2" v6 "slice_cols (length S6) (transpose_t VT6)"
        "mm_raw (slice_cols (length S6) (transpose_t VT6))
           (transpose_t (slice_cols (length S6) (transpose_t VT6)))"]
      is_svd_6 constraint_A_6
    by (simp add: svd_six_faces_def lstsq_six_faces_def S)
qed

theorem project_restores_constraints_witness:
  "constraint_A 6 = Inr A6 \<and> full_row_rank A6 \<and>
   svd_six_faces A6 = Inr (U6, S6, VT6) \<and> is_svd A6 U6 S6 VT6 \<and>
   lstsq_six_faces A6 (constraint_b (9/2)) = Inr v6 \<and> is_least_squares A6 (constraint_b (9/2)) v6 \<and>
   has_shape x6 6 1 \<and>
   (\<exists>proj y. compute_constraint_projector svd_six_faces lstsq_six_faces 6 (9/2) = Inr proj \<and>
      proj x6 = Inr y \<and> has_shape y 6 1 \<and> mm A6 y = Inr (constraint_b (9/2)))"
  using project_restores_constraints[OF constraint_A_6 A6_full_row_rank _ is_svd_6 _ v6_is_lstsq[THEN is_lstsq_least_squares] x6_shape,
      of svd_six_faces lstsq_six_faces]
    constraint_A_6 A6_full_row_rank is_svd_6 v6_is_lstsq[THEN is_lstsq_least_squares] x6_shape
  by (simp add: svd_six_faces_def lstsq_six_faces_def)

theorem project_idempotent_witness:
  "constraint_A 6 = Inr A6 \<and> full_row_rank A6 \<and>
   svd_six_faces A6 = Inr (U6, S6, VT6) \<and> is_svd A6 U6 S6 VT6 \<and>
   lstsq_six_faces A6 (constraint_b (9/2)) = Inr v6 \<and> is_least_squares A6 (constraint_b (9/2)) v6 \<and>
   has_shape x6 6 1 \<and>
   (\<exists>proj y. compute_constraint_projector svd_six_faces lstsq_six_faces 6 (9/2) = Inr proj \<and>
      proj x6 = Inr y \<and> proj y = Inr y)"
  using project_idempotent[OF constraint_A_6 A6_full_row_rank _ is_svd_6 _ v6_is_lstsq[THEN is_lstsq_least_squares] x6_shape,
      of svd_six_faces lstsq_six_faces]
    constraint_A_6 A6_full_row_rank is_svd_6 v6_is_lstsq[THEN is_lstsq_least_squares] x6_shape
  by (simp add: svd_six_faces_def lstsq_six_faces_def)

theorem particular_solution_six_faces_witness:
  "constraint_A 6 = Inr A6 \<and> svd_six_faces A6 = Inr (U6, S6, VT6) \<and> is_svd A6 U6 S6 VT6 \<and>
   lstsq_six_faces A6 (constraint_b (9/2)) = Inr v6 \<and> is_lstsq A6 (constraint_b (9/2)) v6 \<and>
   v6 = Tensor2 1 [[5/210], [17/210], [29/210], [41/210], [53/210], [65/210]] \<and>
   (\<exists>proj. compute_constraint_projector svd_six_faces lstsq_six_faces 6 (9/2) = Inr proj \<and>
      proj v6 = Inr v6)"
  using particular_solution_six_faces[OF constraint_A_6 _ is_svd_6 _ v6_is_lstsq,
      of svd_six_faces lstsq_six_faces]
    constraint_A_6 is_svd_6 v6_is_lstsq
  by (simp add: svd_six_faces_def lstsq_six_faces_def)

theorem two_faces_projector_constant_witness:
  "constraint_A 2 = Inr A2 \<and> svd_two_faces A2 = Inr (U2, S2, VT2) \<and> is_svd A2 U2 S2 VT2 \<and>
   lstsq_two_faces A2 (constraint_b (3/2)) = Inr vw \<and> is_least_squares A2 (constraint_b (3/2)) vw \<and>
   projector_captures svd_two_faces lstsq_two_faces 2 (3/2) = Inr (zeros 2 2, vw) \<and>
   project (zeros 2 2) vw x2 = Inr vw \<and>
   (\<exists>m0. init svd_two_faces lstsq_two_faces 2 (3/2) = Inr m0 \<and>
      (\<exists>m. optimize (1/1000) 2000 m0 = Inr m \<and> p m = [1/2, 1/2]))"
proof -
  have x: "has_shape x2 2 1"
    by (simp add: x2_def has_shape_def nrows_def)
  have k: "2000 = Suc 1999"
    by simp
  note t = two_faces_projector_constant[OF constraint_A_2 _ is_svd_2 _ vw_is_lstsq[THEN is_lstsq_least_squares],
      of svd_two_faces lstsq_two_faces, unfolded svd_two_faces_def lstsq_two_faces_def,
      OF refl refl]
  from t obtain m0 where m0: "init (\<lambda>A. Inr (U2, S2, VT2)) (\<lambda>A b. Inr vw) 2 (3/2) = Inr m0"
    "\<forall>lr k. \<exists>m. optimize lr (Suc k) m0 = Inr m \<and> p m = [1/2, 1/2]"
    by blast
  have "\<exists>m. optimize (1/1000) 2000 m0 = Inr m \<and> p m = [1/2, 1/2]"
    unfolding k using m0(2) by blast
  then have "\<exists>m0. init svd_two_faces lstsq_two_faces 2 (3/2) = Inr m0 \<and>
      (\<exists>m. optimize (1/1000) 2000 m0 = Inr m \<and> p m = [1/2, 1/2])"
    using m0(1) unfolding svd_two_faces_def lstsq_two_faces_def by blast
  moreover have "projector_captures svd_two_faces lstsq_two_faces 2 (3/2) = Inr (zeros 2 2, vw)"
    "project (zeros 2 2) vw x2 = Inr vw"
    using t x unfolding svd_two_faces_def lstsq_two_faces_def by blast+
  ultimately show ?thesis
    using constraint_A_2 is_svd_2 vw_is_lstsq[THEN is_lstsq_least_squares]
    by (simp add: svd_two_faces_def lstsq_two_faces_def)
qed

theorem run_deterministic_witness:
  "constraint_A 2 = Inr A2 \<and>
   svd_two_faces A2 = Inr (U2, S2, VT2) \<and> is_svd A2 U2 S2 VT2 \<and>
   svd_two_faces' A2 = Inr (U2', S2, VT2') \<and> is_svd A2 U2' S2 VT2' \<and>
   lstsq_two_faces A2 (constraint_b (3/2)) = Inr vw \<and> is_lstsq A2 (constraint_b (3/2)) vw \<and>
   run svd_two_faces lstsq_two_faces 2 (3/2) (1/1000) 2000
     = run svd_two_faces' lstsq_two_faces 2 (3/2) (1/1000) 2000"
  using run_deterministic[OF constraint_A_2 _ is_svd_2 _ vw_is_lstsq _ is_svd_2' _ vw_is_lstsq,
      of svd_two_faces lstsq_two_faces svd_two_faces' lstsq_two_faces "1/1000" 2000]
    constraint_A_2 is_svd_2 is_svd_2' vw_is_lstsq
  by (simp add: svd_two_faces_def svd_two_faces'_def lstsq_two_faces_def)

end
